theory Spec2Isabelle
  imports Complex_Main "HOL-Library.Log_Nat"
begin

section \<open>Numbers (binary64)\<close>

text \<open>
  A JavaScript \<^verbatim>\<open>number\<close> is an IEEE 754 binary64 value: \<^verbatim>\<open>NaN\<close>, an infinity, or
  a finite value, kept here as the real number it denotes. Every arithmetic operation
  computes the exact real result and rounds it to the nearest binary64 value, a tie going
  to the even significand, with subnormals below \<open>2\<^sup>-\<^sup>1\<^sup>0\<^sup>2\<^sup>2\<close> and overflow to an infinity
  when the rounded magnitude reaches \<open>2\<^sup>1\<^sup>0\<^sup>2\<^sup>4\<close>. The two zeros are one value: the program
  never makes the sign of a zero visible (it divides only by powers of ten and by
  \<open>1 + vatRate / 100\<close>, and compares with \<^verbatim>\<open>===\<close>, \<^verbatim>\<open><\<close> and \<^verbatim>\<open>>\<close>).
\<close>

datatype number = NaN | NegInfinity | Finite real | PosInfinity

text \<open>Rounding a real to an integer, a tie going to the even one.\<close>

definition roundHalfEven :: "real \<Rightarrow> int" where
  "roundHalfEven q =
     (let f = \<lfloor>q\<rfloor>; d = q - of_int f
      in if d < 1 / 2 then f else if 1 / 2 < d then f + 1 else if even f then f else f + 1)"

text \<open>
  The binary exponent of a real that is not zero: the \<open>e\<close> with \<open>2\<^sup>e \<le> \<bar>x\<bar> < 2\<^sup>e\<^sup>+\<^sup>1\<close>, read
  from the bit length of the integer part of \<open>\<bar>x\<bar>\<close> or of \<open>1 / \<bar>x\<bar>\<close>.
\<close>

definition exponent :: "real \<Rightarrow> int" where
  "exponent x =
     (let a = \<bar>x\<bar>
      in if 1 \<le> a then bitlen \<lfloor>a\<rfloor> - 1
         else let l = bitlen \<lfloor>1 / a\<rfloor> - 1
              in if a * 2 powi l = 1 then - l else - l - 1)"

text \<open>
  The spacing of the binary64 values around \<open>x\<close>: 53 significant bits, and the fixed
  spacing \<open>2\<^sup>-\<^sup>1\<^sup>0\<^sup>7\<^sup>4\<close> of the subnormal range.
\<close>

definition ulp :: "real \<Rightarrow> real" where
  "ulp x = 2 powi (max (exponent x) (- 1022) - 52)"

definition nearest :: "real \<Rightarrow> real" where
  "nearest x = (if x = 0 then 0 else of_int (roundHalfEven (x / ulp x)) * ulp x)"

definition binary64 :: "real \<Rightarrow> number" where
  "binary64 x =
     (let y = nearest x
      in if 2 ^ 1024 \<le> y then PosInfinity
         else if y \<le> - (2 ^ 1024) then NegInfinity
         else Finite y)"

definition isNaN :: "number \<Rightarrow> bool" where
  "isNaN x = (x = NaN)"

definition js_add :: "number \<Rightarrow> number \<Rightarrow> number" where
  "js_add x y =
     (case x of
        NaN \<Rightarrow> NaN
      | PosInfinity \<Rightarrow> (case y of NaN \<Rightarrow> NaN | NegInfinity \<Rightarrow> NaN | _ \<Rightarrow> PosInfinity)
      | NegInfinity \<Rightarrow> (case y of NaN \<Rightarrow> NaN | PosInfinity \<Rightarrow> NaN | _ \<Rightarrow> NegInfinity)
      | Finite a \<Rightarrow> (case y of Finite b \<Rightarrow> binary64 (a + b) | _ \<Rightarrow> y))"

definition js_sub :: "number \<Rightarrow> number \<Rightarrow> number" where
  "js_sub x y =
     (case x of
        NaN \<Rightarrow> NaN
      | PosInfinity \<Rightarrow> (case y of NaN \<Rightarrow> NaN | PosInfinity \<Rightarrow> NaN | _ \<Rightarrow> PosInfinity)
      | NegInfinity \<Rightarrow> (case y of NaN \<Rightarrow> NaN | NegInfinity \<Rightarrow> NaN | _ \<Rightarrow> NegInfinity)
      | Finite a \<Rightarrow>
          (case y of
             NaN \<Rightarrow> NaN
           | PosInfinity \<Rightarrow> NegInfinity
           | NegInfinity \<Rightarrow> PosInfinity
           | Finite b \<Rightarrow> binary64 (a - b)))"

text \<open>Unary minus.\<close>

definition js_neg :: "number \<Rightarrow> number" where
  "js_neg x =
     (case x of NaN \<Rightarrow> NaN | PosInfinity \<Rightarrow> NegInfinity | NegInfinity \<Rightarrow> PosInfinity
      | Finite a \<Rightarrow> Finite (- a))"

text \<open>An infinity of the sign of \<open>s\<close>, and \<^verbatim>\<open>NaN\<close> for \<open>s = 0\<close>.\<close>

definition signedInfinity :: "real \<Rightarrow> number" where
  "signedInfinity s = (if s = 0 then NaN else if 0 < s then PosInfinity else NegInfinity)"

definition js_mul :: "number \<Rightarrow> number \<Rightarrow> number" where
  "js_mul x y =
     (case x of
        NaN \<Rightarrow> NaN
      | PosInfinity \<Rightarrow>
          (case y of NaN \<Rightarrow> NaN | PosInfinity \<Rightarrow> PosInfinity | NegInfinity \<Rightarrow> NegInfinity
           | Finite b \<Rightarrow> signedInfinity b)
      | NegInfinity \<Rightarrow>
          (case y of NaN \<Rightarrow> NaN | PosInfinity \<Rightarrow> NegInfinity | NegInfinity \<Rightarrow> PosInfinity
           | Finite b \<Rightarrow> signedInfinity (- b))
      | Finite a \<Rightarrow>
          (case y of NaN \<Rightarrow> NaN | PosInfinity \<Rightarrow> signedInfinity a
           | NegInfinity \<Rightarrow> signedInfinity (- a)
           | Finite b \<Rightarrow> binary64 (a * b)))"

text \<open>
  Division: a finite value over zero is an infinity of the sign of the dividend (the zero
  divisor counts as positive), and zero over zero is \<^verbatim>\<open>NaN\<close>.
\<close>

definition js_div :: "number \<Rightarrow> number \<Rightarrow> number" where
  "js_div x y =
     (case x of
        NaN \<Rightarrow> NaN
      | PosInfinity \<Rightarrow>
          (case y of Finite b \<Rightarrow> (if b < 0 then NegInfinity else PosInfinity) | _ \<Rightarrow> NaN)
      | NegInfinity \<Rightarrow>
          (case y of Finite b \<Rightarrow> (if b < 0 then PosInfinity else NegInfinity) | _ \<Rightarrow> NaN)
      | Finite a \<Rightarrow>
          (case y of
             NaN \<Rightarrow> NaN
           | PosInfinity \<Rightarrow> Finite 0
           | NegInfinity \<Rightarrow> Finite 0
           | Finite b \<Rightarrow> (if b = 0 then signedInfinity a else binary64 (a / b))))"

text \<open>\<^verbatim>\<open>x < y\<close>; every comparison with \<^verbatim>\<open>NaN\<close> is false.\<close>

definition js_lt :: "number \<Rightarrow> number \<Rightarrow> bool" where
  "js_lt x y =
     (case x of
        NaN \<Rightarrow> False
      | PosInfinity \<Rightarrow> False
      | NegInfinity \<Rightarrow> (case y of NaN \<Rightarrow> False | NegInfinity \<Rightarrow> False | _ \<Rightarrow> True)
      | Finite a \<Rightarrow>
          (case y of NaN \<Rightarrow> False | NegInfinity \<Rightarrow> False | PosInfinity \<Rightarrow> True
           | Finite b \<Rightarrow> a < b))"

definition js_gt :: "number \<Rightarrow> number \<Rightarrow> bool" where
  "js_gt x y = js_lt y x"

text \<open>\<^verbatim>\<open>x <= y\<close>.\<close>

definition js_le :: "number \<Rightarrow> number \<Rightarrow> bool" where
  "js_le x y = (x \<noteq> NaN \<and> y \<noteq> NaN \<and> (x = y \<or> js_lt x y))"

definition Number_EPSILON :: number where
  "Number_EPSILON = Finite (1 / 2 ^ 52)"

text \<open>
  \<^verbatim>\<open>Math.round\<close> gives the integer nearest to its argument, a tie going up (toward
  \<open>+\<infinity>\<close>), computed on the exact value: \<open>\<lfloor>x + 1/2\<rfloor>\<close>. It returns \<^verbatim>\<open>NaN\<close> and the
  infinities unchanged.
\<close>

definition Math_round :: "number \<Rightarrow> number" where
  "Math_round x = (case x of Finite a \<Rightarrow> Finite (of_int \<lfloor>a + 1 / 2\<rfloor>) | _ \<Rightarrow> x)"

text \<open>
  \<^verbatim>\<open>Math.pow\<close> for a positive base and an integer exponent, taken as correctly rounded
  (the program calls it with base 10, and with exponent 2 wherever it computes VAT).
\<close>

definition Math_pow :: "real \<Rightarrow> int \<Rightarrow> number" where
  "Math_pow b e = binary64 (b powi e)"

section \<open>VAT arithmetic (src/src/utils/math.ts)\<close>

text \<open>\<^verbatim>\<open>Date.now()\<close> is the parameter \<open>now\<close>.\<close>

datatype CalculationMode = Add | Extract

record CalculationResult =
  mode :: CalculationMode
  vatRate :: number
  priceExcludingVat :: number
  vatAmount :: number
  priceIncludingVat :: number
  timestamp :: int

text \<open>\<^verbatim>\<open>throw new Error(message)\<close>: the only exception the module raises.\<close>

datatype error = Error string

definition roundToDecimal :: "number \<Rightarrow> int \<Rightarrow> number" where
  "roundToDecimal val decimals =
     (let multiplier = Math_pow 10 decimals
      in js_div (Math_round (js_mul (js_add val Number_EPSILON) multiplier)) multiplier)"

text \<open>The default argument \<^verbatim>\<open>decimals = 2\<close> is written out at each call.\<close>

definition addVat :: "number \<Rightarrow> number \<Rightarrow> int \<Rightarrow> error + CalculationResult" where
  "addVat price rate now =
     (if js_lt price (Finite 0) then Inl (Error ''Price cannot be negative'')
      else if js_lt rate (Finite 0) \<or> js_gt rate (Finite 100)
        then Inl (Error ''VAT rate must be between 0 and 100'')
      else
        let priceExcludingVat' = roundToDecimal price 2;
            vatAmount' = roundToDecimal (js_mul price (js_div rate (Finite 100))) 2;
            priceIncludingVat' = roundToDecimal (js_add priceExcludingVat' vatAmount') 2
        in Inr \<lparr> mode = Add, vatRate = rate, priceExcludingVat = priceExcludingVat',
                 vatAmount = vatAmount', priceIncludingVat = priceIncludingVat',
                 timestamp = now \<rparr>)"

definition extractVat :: "number \<Rightarrow> number \<Rightarrow> int \<Rightarrow> error + CalculationResult" where
  "extractVat total_price rate now =
     (if js_lt total_price (Finite 0) then Inl (Error ''Total price cannot be negative'')
      else if js_lt rate (Finite 0) \<or> js_gt rate (Finite 100)
        then Inl (Error ''VAT rate must be between 0 and 100'')
      else
        let priceIncludingVat' = roundToDecimal total_price 2;
            priceExcludingVat' =
              roundToDecimal (js_div total_price (js_add (Finite 1) (js_div rate (Finite 100)))) 2;
            vatAmount' = roundToDecimal (js_sub priceIncludingVat' priceExcludingVat') 2
        in Inr \<lparr> mode = Extract, vatRate = rate, priceExcludingVat = priceExcludingVat',
                 vatAmount = vatAmount', priceIncludingVat = priceIncludingVat',
                 timestamp = now \<rparr>)"

definition calculateVat ::
  "number \<Rightarrow> number \<Rightarrow> CalculationMode \<Rightarrow> int \<Rightarrow> error + CalculationResult" where
  "calculateVat amt rate m now =
     (if m = Add then addVat amt rate now else extractVat amt rate now)"

section \<open>History store (useHistoryStore, in src/unnamed/part_002)\<close>

record HistoryState =
  history :: "CalculationResult list"
  maxHistorySize :: nat

definition initialHistoryState :: HistoryState where
  "initialHistoryState = \<lparr> history = [], maxHistorySize = 10 \<rparr>"

text \<open>\<^verbatim>\<open>newHistory.pop()\<close> removes the last element, which is \<open>butlast\<close>.\<close>

definition addCalculation :: "CalculationResult \<Rightarrow> HistoryState \<Rightarrow> HistoryState" where
  "addCalculation calculation state =
     (let newHistory = calculation # history state
      in state \<lparr> history :=
           (if length newHistory > maxHistorySize state then butlast newHistory
            else newHistory) \<rparr>)"

definition clearHistory :: "HistoryState \<Rightarrow> HistoryState" where
  "clearHistory state = state \<lparr> history := [] \<rparr>"

definition getHistory :: "HistoryState \<Rightarrow> CalculationResult list" where
  "getHistory state = history state"

section \<open>The calculator hook (useVatCalculator, in src/src/components/features/HistoryList.tsx)\<close>

subsection \<open>Strings to numbers, numbers to strings\<close>

definition isDigit :: "char \<Rightarrow> bool" where
  "isDigit c = (c \<in> set ''0123456789'')"

text \<open>The value of a digit is its position in \<^verbatim>\<open>0123456789\<close>.\<close>

definition digitValue :: "char \<Rightarrow> int" where
  "digitValue c = int (length (takeWhile (\<lambda>d. d \<noteq> c) ''0123456789''))"

definition digitsValue :: "string \<Rightarrow> int" where
  "digitsValue ds = foldl (\<lambda>n c. 10 * n + digitValue c) 0 ds"

text \<open>
  The test \<^verbatim>\<open>/^\d*\.?\d*$/\<close> of the two input handlers: digits, at most one dot,
  digits.
\<close>

definition inputPattern :: "string \<Rightarrow> bool" where
  "inputPattern s =
     (case dropWhile isDigit s of
        [] \<Rightarrow> True
      | c # rest \<Rightarrow> c = CHR ''.'' \<and> list_all isDigit rest)"

text \<open>
  \<^verbatim>\<open>parseFloat\<close> reads the longest prefix that is a decimal literal: an optional sign,
  digits, and an optional dot with digits, where a digit is needed on one side of the dot.
  The result is the binary64 value nearest to the decimal read, an infinity when that is
  out of range, and \<^verbatim>\<open>NaN\<close> when there is no such prefix. Leading white space, an
  exponent part and the literal \<^verbatim>\<open>Infinity\<close> are not modelled: the hook parses only
  strings that passed \<open>inputPattern\<close> and the default rate \<^verbatim>\<open>'7.5'\<close>.
\<close>

definition parseUnsigned :: "string \<Rightarrow> real option" where
  "parseUnsigned s =
     (let intPart = takeWhile isDigit s;
          rest = dropWhile isDigit s;
          fracPart = (case rest of [] \<Rightarrow> [] | c # cs \<Rightarrow>
                        if c = CHR ''.'' then takeWhile isDigit cs else [])
      in if intPart = [] \<and> fracPart = [] then None
         else Some (of_int (digitsValue intPart)
                    + of_int (digitsValue fracPart) / 10 ^ length fracPart))"

definition parseFloat :: "string \<Rightarrow> number" where
  "parseFloat s =
     (case s of
        [] \<Rightarrow> NaN
      | c # cs \<Rightarrow>
          if c = CHR ''-'' then
            (case parseUnsigned cs of None \<Rightarrow> NaN | Some v \<Rightarrow> binary64 (- v))
          else
            (case parseUnsigned (if c = CHR ''+'' then cs else s) of
               None \<Rightarrow> NaN
             | Some v \<Rightarrow> binary64 v))"

text \<open>
  \<^verbatim>\<open>x.toFixed(2)\<close> for a finite \<open>x\<close> of magnitude below \<open>10\<^sup>2\<^sup>1\<close> prints a minus sign
  when \<open>x < 0\<close> and then, with two fraction digits, the integer \<open>n\<close> for which \<open>n / 100\<close> is
  nearest to \<open>\<bar>x\<bar>\<close>, the larger one on a tie: \<open>Digits\<close> keeps the sign and \<open>n\<close>. For any
  other \<open>x\<close> it prints what \<^verbatim>\<open>String(x)\<close> prints, which is kept as \<open>x\<close> itself.
\<close>

datatype fixed = Digits bool int | Plain number

definition toFixed2 :: "number \<Rightarrow> fixed" where
  "toFixed2 x =
     (case x of
        Finite a \<Rightarrow>
          if 10 ^ 21 \<le> \<bar>a\<bar> then Plain x
          else Digits (a < 0) \<lfloor>\<bar>a\<bar> * 100 + 1 / 2\<rfloor>
      | _ \<Rightarrow> Plain x)"

text \<open>
  The key is the template string
  \<^verbatim>\<open>`${priceExcludingVat.toFixed(2)}-${vatRate}-${calcMode}-${priceIncludingVat.toFixed(2)}`\<close>,
  modelled as the tuple of its four interpolated parts; the empty string, the initial
  value of \<^verbatim>\<open>lastSavedKeyRef\<close>, which no key equals, is \<open>None\<close>.
\<close>

type_synonym CalculationKey = "fixed \<times> number \<times> CalculationMode \<times> fixed"

definition createCalculationKey :: "CalculationResult \<Rightarrow> CalculationMode \<Rightarrow> CalculationKey" where
  "createCalculationKey calcResult calcMode =
     (toFixed2 (priceExcludingVat calcResult), vatRate calcResult, calcMode,
      toFixed2 (priceIncludingVat calcResult))"

subsection \<open>State of the hook\<close>

text \<open>
  The four \<^verbatim>\<open>useState\<close> variables, the seven \<^verbatim>\<open>useRef\<close> cells and the history store.
  The state variables \<^verbatim>\<open>vatRate\<close> and \<^verbatim>\<open>mode\<close> are \<open>vatRateInput\<close> and \<open>modeInput\<close>
  (the result record has fields of those names). \<open>debounceTimerRef\<close> holds whether a
  timer is pending; its callback reads only the refs and the store, so the handle needs no
  more.
\<close>

record Hook =
  amount :: string
  vatRateInput :: string
  modeInput :: CalculationMode
  result :: "CalculationResult option"
  lastSavedKeyRef :: "CalculationKey option"
  lastValidResultRef :: "(CalculationResult \<times> CalculationKey) option"
  debounceTimerRef :: bool
  latestAmountRef :: string
  latestVatRateRef :: string
  latestModeRef :: CalculationMode
  latestResultRef :: "CalculationResult option"
  store :: HistoryState

definition DEFAULT_VAT_RATE :: string where
  "DEFAULT_VAT_RATE = ''7.5''"

definition initialHook :: Hook where
  "initialHook =
     \<lparr> amount = '''', vatRateInput = DEFAULT_VAT_RATE, modeInput = Add, result = None,
       lastSavedKeyRef = None, lastValidResultRef = None, debounceTimerRef = False,
       latestAmountRef = '''', latestVatRateRef = DEFAULT_VAT_RATE, latestModeRef = Add,
       latestResultRef = None, store = initialHistoryState \<rparr>"

subsection \<open>Callbacks\<close>

text \<open>The boolean that \<^verbatim>\<open>saveCalculation\<close> returns is used by no caller and is left out.\<close>

definition saveCalculation :: "CalculationResult \<Rightarrow> CalculationKey \<Rightarrow> Hook \<Rightarrow> Hook" where
  "saveCalculation calcResult key h =
     (if lastSavedKeyRef h = Some key then h
      else h \<lparr> store := addCalculation calcResult (store h), lastSavedKeyRef := Some key \<rparr>)"

definition performCalculation :: "int \<Rightarrow> Hook \<Rightarrow> Hook" where
  "performCalculation now h =
     (let amountNum = parseFloat (amount h);
          vatRateNum = parseFloat (vatRateInput h)
      in if isNaN amountNum \<or> isNaN vatRateNum \<or> js_lt amountNum (Finite 0)
            \<or> js_lt vatRateNum (Finite 0) \<or> js_gt vatRateNum (Finite 100)
            \<or> amount h = '''' \<or> vatRateInput h = ''''
         then h \<lparr> result := None \<rparr>
         else
           (case calculateVat amountNum vatRateNum (modeInput h) now of
              Inl e \<Rightarrow> h \<lparr> result := None, latestResultRef := None \<rparr>
            | Inr calculationResult \<Rightarrow>
                let h' = h \<lparr> result := Some calculationResult,
                              latestAmountRef := amount h,
                              latestVatRateRef := vatRateInput h,
                              latestModeRef := modeInput h,
                              latestResultRef := Some calculationResult \<rparr>
                in if js_gt amountNum (Finite 0)
                   then h' \<lparr> lastValidResultRef :=
                          Some (calculationResult,
                                createCalculationKey calculationResult (modeInput h)) \<rparr>
                   else h'))"

definition saveToHistory :: "Hook \<Rightarrow> Hook" where
  "saveToHistory h =
     (case result h of
        None \<Rightarrow> h
      | Some r \<Rightarrow>
          let amountNum = parseFloat (amount h)
          in if isNaN amountNum \<or> js_le amountNum (Finite 0) then h
             else saveCalculation r (createCalculationKey r (modeInput h)) h)"

definition scheduleAutoSave :: "Hook \<Rightarrow> Hook" where
  "scheduleAutoSave h = h \<lparr> debounceTimerRef := True \<rparr>"

text \<open>The callback that \<^verbatim>\<open>scheduleAutoSave\<close> hands to \<^verbatim>\<open>setTimeout\<close>.\<close>

definition autoSaveCallback :: "Hook \<Rightarrow> Hook" where
  "autoSaveCallback h =
     (case latestResultRef h of
        None \<Rightarrow> h \<lparr> debounceTimerRef := False \<rparr>
      | Some currentResult \<Rightarrow>
          let amountNum = parseFloat (latestAmountRef h)
          in if isNaN amountNum \<or> js_le amountNum (Finite 0)
             then h \<lparr> debounceTimerRef := False \<rparr>
             else
               let key = createCalculationKey currentResult (latestModeRef h)
               in if lastSavedKeyRef h = Some key then h \<lparr> debounceTimerRef := False \<rparr>
                  else (saveCalculation currentResult key h) \<lparr> debounceTimerRef := False \<rparr>)"

definition clearDebounceTimer :: "Hook \<Rightarrow> Hook" where
  "clearDebounceTimer h = h \<lparr> debounceTimerRef := False \<rparr>"

definition handleAmountBlur :: "Hook \<Rightarrow> Hook" where
  "handleAmountBlur h = saveToHistory (clearDebounceTimer h)"

text \<open>
  On Enter the handler ends with \<^verbatim>\<open>e.currentTarget.blur()\<close>, which makes the input
  lose focus and so runs \<open>handleAmountBlur\<close>.
\<close>

definition handleAmountKeyDown :: "string \<Rightarrow> Hook \<Rightarrow> Hook" where
  "handleAmountKeyDown key h =
     (if key = ''Enter'' then handleAmountBlur (saveToHistory (clearDebounceTimer h)) else h)"

definition resetCalculator :: "Hook \<Rightarrow> Hook" where
  "resetCalculator h =
     (let h1 = (case result h of None \<Rightarrow> h | Some r \<Rightarrow> saveToHistory h);
          h2 = clearDebounceTimer h1
      in h2 \<lparr> amount := '''', vatRateInput := DEFAULT_VAT_RATE, modeInput := Add,
              result := None, latestAmountRef := '''', latestVatRateRef := DEFAULT_VAT_RATE,
              latestModeRef := Add, latestResultRef := None, lastValidResultRef := None \<rparr>)"

definition handleSetAmount :: "string \<Rightarrow> Hook \<Rightarrow> Hook" where
  "handleSetAmount v h =
     (if v = '''' \<or> inputPattern v then
        let previousAmount = amount h;
            h1 = h \<lparr> latestAmountRef := v \<rparr>;
            h2 = (if previousAmount \<noteq> '''' \<and> v = '''' then
                    let h3 = (case lastValidResultRef h1 of
                                None \<Rightarrow> h1
                              | Some (r, key) \<Rightarrow> saveCalculation r key h1)
                    in (clearDebounceTimer h3)
                         \<lparr> lastValidResultRef := None, latestResultRef := None \<rparr>
                  else if v \<noteq> '''' \<and> v \<noteq> previousAmount then scheduleAutoSave h1
                  else h1)
        in h2 \<lparr> amount := v \<rparr>
      else h)"

definition handleSetVatRate :: "string \<Rightarrow> Hook \<Rightarrow> Hook" where
  "handleSetVatRate v h =
     (if v = '''' \<or> inputPattern v then
        let h1 = h \<lparr> latestVatRateRef := v, vatRateInput := v \<rparr>
        in if amount h \<noteq> '''' \<and> v \<noteq> vatRateInput h then scheduleAutoSave h1 else h1
      else h)"

definition handleSetMode :: "CalculationMode \<Rightarrow> Hook \<Rightarrow> Hook" where
  "handleSetMode newMode h =
     (let h1 = (if newMode \<noteq> modeInput h \<and> amount h \<noteq> '''' then saveToHistory h else h)
      in h1 \<lparr> latestModeRef := newMode, modeInput := newMode \<rparr>)"

subsection \<open>Events\<close>

text \<open>
  One step is one event of the page: a handler runs on the state of the last render, then
  React renders again and the effect calls \<open>performCalculation\<close> when \<^verbatim>\<open>amount\<close>,
  \<^verbatim>\<open>vatRate\<close> or \<^verbatim>\<open>mode\<close> changed (the dependencies of that callback). The timer
  callback runs only while a timer is pending and changes no state variable. Each event
  carries the clock reading that \<^verbatim>\<open>Date.now()\<close> returns during it.
\<close>

datatype event =
    SetAmount string
  | SetVatRate string
  | SetMode CalculationMode
  | AmountBlur
  | AmountKeyDown string
  | Reset
  | TimerFires

definition rerender :: "int \<Rightarrow> Hook \<Rightarrow> Hook \<Rightarrow> Hook" where
  "rerender now rendered h =
     (if amount h = amount rendered \<and> vatRateInput h = vatRateInput rendered
         \<and> modeInput h = modeInput rendered
      then h else performCalculation now h)"

definition step :: "int \<Rightarrow> event \<Rightarrow> Hook \<Rightarrow> Hook" where
  "step now ev h =
     (case ev of
        SetAmount v \<Rightarrow> rerender now h (handleSetAmount v h)
      | SetVatRate v \<Rightarrow> rerender now h (handleSetVatRate v h)
      | SetMode m \<Rightarrow> rerender now h (handleSetMode m h)
      | AmountBlur \<Rightarrow> rerender now h (handleAmountBlur h)
      | AmountKeyDown key \<Rightarrow> rerender now h (handleAmountKeyDown key h)
      | Reset \<Rightarrow> rerender now h (resetCalculator h)
      | TimerFires \<Rightarrow> if debounceTimerRef h then autoSaveCallback h else h)"

fun run :: "(int \<times> event) list \<Rightarrow> Hook \<Rightarrow> Hook" where
  "run [] h = h"
| "run ((now, ev) # evs) h = run evs (step now ev h)"

section \<open>Rounding to binary64\<close>

text \<open>
  The rounded value is within half a unit in the last place of the exact one, it keeps
  the sign, and it does not cross a power of two.
\<close>

lemma roundHalfEven_error: "\<bar>of_int (roundHalfEven q) - q\<bar> \<le> 1 / 2"
  unfolding roundHalfEven_def Let_def by (auto; linarith)

lemma roundHalfEven_ge: "of_int n \<le> q \<Longrightarrow> n \<le> roundHalfEven q"
proof -
  assume "of_int n \<le> q"
  then have "n \<le> \<lfloor>q\<rfloor>" by (simp add: le_floor_iff)
  then show ?thesis unfolding roundHalfEven_def Let_def by auto
qed

lemma roundHalfEven_le: "q \<le> of_int n \<Longrightarrow> roundHalfEven q \<le> n"
proof -
  assume q: "q \<le> of_int n"
  show ?thesis
  proof (cases "q = of_int n")
    case True
    then show ?thesis by (simp add: roundHalfEven_def Let_def)
  next
    case False
    with q have "q < of_int n" by simp
    then have "\<lfloor>q\<rfloor> < n" by (simp add: floor_less_iff)
    then show ?thesis unfolding roundHalfEven_def Let_def by auto
  qed
qed

lemma power2_le_of_int: "2 ^ n \<le> m \<Longrightarrow> (2::real) ^ n \<le> of_int m"
proof -
  assume "2 ^ n \<le> m"
  then have "real_of_int (2 ^ n) \<le> of_int m" by (simp only: of_int_le_iff)
  then show ?thesis by simp
qed

lemma of_int_le_power2: "m \<le> 2 ^ n \<Longrightarrow> of_int m \<le> (2::real) ^ n"
proof -
  assume "m \<le> 2 ^ n"
  then have "real_of_int m \<le> of_int (2 ^ n)" by (simp only: of_int_le_iff)
  then show ?thesis by simp
qed

lemma exponent_bounds:
  assumes "x \<noteq> 0"
  shows "2 powi exponent x \<le> \<bar>x\<bar>" and "\<bar>x\<bar> < 2 powi (exponent x + 1)"
proof -
  define a where "a = \<bar>x\<bar>"
  have a: "0 < a" using assms by (simp add: a_def)
  have "2 powi exponent x \<le> a \<and> a < 2 powi (exponent x + 1)"
  proof (cases "1 \<le> a")
    case True
    define m where "m = \<lfloor>a\<rfloor>"
    have m: "0 < m" "of_int m \<le> a" "a < of_int m + 1"
      using True unfolding m_def by linarith+
    define e where "e = bitlen m - 1"
    have e0: "0 \<le> e" using m(1) by (simp add: e_def bitlen_alt_def)
    have ex: "exponent x = e"
      using True by (simp add: exponent_def Let_def a_def [symmetric] m_def e_def)
    from bitlen_bounds [OF m(1)]
    have b: "2 ^ nat e \<le> m" "m < 2 ^ nat (e + 1)"
      by (simp_all add: e_def)
    have p1: "(2::real) powi e = 2 ^ nat e" using e0 by (simp add: power_int_def)
    have p2: "(2::real) powi (e + 1) = 2 ^ nat (e + 1)" using e0 by (simp add: power_int_def)
    have "(2::real) ^ nat e \<le> of_int m" using b(1) by (rule power2_le_of_int)
    moreover have "m + 1 \<le> 2 ^ nat (e + 1)" using b(2) by simp
    then have "of_int (m + 1) \<le> (2::real) ^ nat (e + 1)" by (rule of_int_le_power2)
    then have "of_int m + 1 \<le> (2::real) ^ nat (e + 1)" by simp
    ultimately show ?thesis unfolding ex p1 p2 using m by linarith
  next
    case False
    define y where "y = 1 / a"
    have y: "1 < y" using False a by (simp add: y_def)
    define m where "m = \<lfloor>y\<rfloor>"
    have m: "0 < m" "of_int m \<le> y" "y < of_int m + 1"
      using y unfolding m_def by linarith+
    define l where "l = bitlen m - 1"
    have l0: "0 \<le> l" using m(1) by (simp add: l_def bitlen_alt_def)
    from bitlen_bounds [OF m(1)]
    have b: "2 ^ nat l \<le> m" "m < 2 ^ nat (l + 1)"
      by (simp_all add: l_def)
    define P where "P = (2::real) ^ nat l"
    have P: "0 < P" by (simp add: P_def)
    have pl: "(2::real) powi l = P" using l0 by (simp add: power_int_def P_def)
    have pml: "(2::real) powi (- l) = 1 / P" by (simp add: power_int_minus_divide pl)
    have pml1: "(2::real) powi (- l - 1) = 1 / (2 * P)"
    proof -
      have "(2::real) powi (- l - 1) = 2 powi (- l) / 2 powi 1"
        by (rule power_int_diff) simp
      then show ?thesis by (simp add: pml)
    qed
    have pml2: "(2::real) powi (- l + 1) = 2 / P"
    proof -
      have "(2::real) powi (- l + 1) = 2 powi (- l) * 2 powi 1"
        by (rule power_int_add) simp
      then show ?thesis by (simp add: pml)
    qed
    have "P \<le> of_int m" using b(1) unfolding P_def by (rule power2_le_of_int)
    then have Py: "P \<le> y" using m by linarith
    have "m + 1 \<le> 2 ^ nat (l + 1)" using b(2) by simp
    then have "of_int (m + 1) \<le> (2::real) ^ nat (l + 1)" by (rule of_int_le_power2)
    then have "of_int m + 1 \<le> (2::real) ^ nat (l + 1)" by simp
    moreover have "(2::real) ^ nat (l + 1) = 2 * P" using l0 by (simp add: P_def nat_add_distrib)
    ultimately have yP: "y < 2 * P" using m by linarith
    have ay: "a = 1 / y" using a by (simp add: y_def)
    have lo: "1 / (2 * P) < a" unfolding ay using yP y P by (simp add: frac_less2)
    have hi: "a \<le> 1 / P" unfolding ay using Py y P by (simp add: frac_le)
    show ?thesis
    proof (cases "a * 2 powi l = 1")
      case True
      then have ex: "exponent x = - l"
        using False by (simp add: exponent_def Let_def a_def [symmetric] y_def [symmetric]
            m_def [symmetric] l_def [symmetric])
      from True have "a = 1 / P" using P by (simp add: pl field_simps)
      then show ?thesis using ex pml pml2 P by (simp add: divide_strict_right_mono)
    next
      case neq: False
      then have ex: "exponent x = - l - 1"
        using False by (simp add: exponent_def Let_def a_def [symmetric] y_def [symmetric]
            m_def [symmetric] l_def [symmetric])
      from neq have "a \<noteq> 1 / P" using P by (auto simp add: pl field_simps)
      with hi have "a < 1 / P" by simp
      then show ?thesis using ex pml pml1 lo by simp
    qed
  qed
  then show "2 powi exponent x \<le> \<bar>x\<bar>" and "\<bar>x\<bar> < 2 powi (exponent x + 1)"
    by (simp_all add: a_def)
qed

lemma exponent_unique:
  assumes "2 powi e \<le> \<bar>x\<bar>" and "\<bar>x\<bar> < 2 powi (e + 1)"
  shows "exponent x = e"
proof -
  have "(0::real) < 2 powi e" by (simp add: zero_less_power_int)
  with assms(1) have "0 < \<bar>x\<bar>" by linarith
  then have x: "x \<noteq> 0" by simp
  note b = exponent_bounds [OF x]
  have "\<not> e + 1 \<le> exponent x"
  proof
    assume "e + 1 \<le> exponent x"
    then have "(2::real) powi (e + 1) \<le> 2 powi exponent x" by (rule power_int_increasing) simp
    with b(1) assms(2) show False by linarith
  qed
  moreover have "\<not> exponent x + 1 \<le> e"
  proof
    assume "exponent x + 1 \<le> e"
    then have "(2::real) powi (exponent x + 1) \<le> 2 powi e" by (rule power_int_increasing) simp
    with b(2) assms(1) show False by linarith
  qed
  ultimately show ?thesis by linarith
qed

lemma ulp_pos: "0 < ulp x"
  by (simp add: ulp_def zero_less_power_int)

lemma nearest_error_ulp: "\<bar>nearest x - x\<bar> \<le> ulp x / 2"
proof (cases "x = 0")
  case True
  then show ?thesis using ulp_pos [of x] by (simp add: nearest_def)
next
  case False
  define u where "u = ulp x"
  have u: "0 < u" by (simp add: u_def ulp_pos)
  have "nearest x - x = (of_int (roundHalfEven (x / u)) - x / u) * u"
    using False u by (simp add: nearest_def u_def algebra_simps)
  then have "\<bar>nearest x - x\<bar> = \<bar>of_int (roundHalfEven (x / u)) - x / u\<bar> * u"
    using u by (simp add: abs_mult)
  also have "\<dots> \<le> 1 / 2 * u"
    using roundHalfEven_error [of "x / u"] u by (intro mult_right_mono) simp_all
  finally show ?thesis by (simp add: u_def)
qed

lemma half_ulp_bound: "x \<noteq> 0 \<Longrightarrow> ulp x / 2 \<le> \<bar>x\<bar> / 2 ^ 53 + 1 / 2 ^ 1075"
proof -
  assume x: "x \<noteq> 0"
  show ?thesis
  proof (cases "- 1022 \<le> exponent x")
    case True
    then have "max (exponent x) (- 1022) = exponent x" by simp
    then have "ulp x = 2 powi (exponent x - 52)" by (simp only: ulp_def)
    also have "\<dots> = 2 powi exponent x / 2 powi 52" by (rule power_int_diff) simp
    finally have "ulp x / 2 = 2 powi exponent x / 2 ^ 53" by simp
    also have "\<dots> \<le> \<bar>x\<bar> / 2 ^ 53"
      using exponent_bounds(1) [OF x] by (simp add: divide_right_mono)
    finally show ?thesis by (simp add: add_increasing2)
  next
    case False
    then have "max (exponent x) (- 1022) - 52 = - 1074" by simp
    then have "ulp x = 2 powi (- 1074)" by (simp only: ulp_def)
    then have "ulp x / 2 = 1 / 2 ^ 1075" by (simp add: power_int_minus_divide)
    then show ?thesis by simp
  qed
qed

lemma nearest_error: "\<bar>nearest x - x\<bar> \<le> \<bar>x\<bar> / 2 ^ 53 + 1 / 2 ^ 1075"
proof (cases "x = 0")
  case True
  then show ?thesis by (simp add: nearest_def)
next
  case False
  then show ?thesis using nearest_error_ulp [of x] half_ulp_bound [of x] by linarith
qed

lemma nearest_ge_power:
  assumes e: "- 1022 \<le> e" and x: "2 powi e \<le> x"
  shows "2 powi e \<le> nearest x"
proof -
  have pe: "(0::real) < 2 powi e" by (simp add: zero_less_power_int)
  with x have x0: "x \<noteq> 0" "0 < x" by linarith+
  define ex where "ex = exponent x"
  note b = exponent_bounds [OF x0(1), folded ex_def]
  have ee: "e \<le> ex"
  proof (rule ccontr)
    assume "\<not> e \<le> ex"
    then have "ex + 1 \<le> e" by simp
    then have "(2::real) powi (ex + 1) \<le> 2 powi e" by (rule power_int_increasing) simp
    with b(2) x x0 show False by simp
  qed
  then have "max (exponent x) (- 1022) = ex" using e by (simp add: ex_def)
  then have u: "ulp x = 2 powi (ex - 52)" by (simp only: ulp_def)
  have u2: "ulp x = 2 powi ex / 2 ^ 52"
    unfolding u using power_int_diff [of "2::real" ex 52] by simp
  have "2 ^ 52 \<le> x / ulp x"
  proof -
    have P: "(0::real) < 2 powi ex" by (simp add: zero_less_power_int)
    have "1 \<le> x / 2 powi ex" using b(1) x0 P by simp
    then have "1 * 2 ^ 52 \<le> x / 2 powi ex * 2 ^ 52" by (intro mult_right_mono) simp_all
    then show ?thesis by (simp add: u2)
  qed
  then have "real_of_int (2 ^ 52) \<le> x / ulp x" by simp
  then have "2 ^ 52 \<le> roundHalfEven (x / ulp x)" by (rule roundHalfEven_ge)
  then have "(2::real) ^ 52 \<le> of_int (roundHalfEven (x / ulp x))"
    by (rule power2_le_of_int)
  then have "2 ^ 52 * ulp x \<le> of_int (roundHalfEven (x / ulp x)) * ulp x"
    using ulp_pos [of x] by (simp add: mult_right_mono)
  then have "2 powi ex \<le> nearest x" using x0 by (simp add: nearest_def u2)
  moreover have "(2::real) powi e \<le> 2 powi ex" using ee by (rule power_int_increasing) simp
  ultimately show ?thesis by linarith
qed

lemma nearest_le_power:
  assumes e: "- 1022 \<le> e" and x0: "0 \<le> x" and x: "x \<le> 2 powi e"
  shows "nearest x \<le> 2 powi e"
proof (cases "x = 0")
  case True
  then show ?thesis by (simp add: nearest_def)
next
  case False
  with x0 have xp: "0 < x" by simp
  define ex where "ex = exponent x"
  note b = exponent_bounds [OF False, folded ex_def]
  have ee: "ex \<le> e"
  proof (rule ccontr)
    assume "\<not> ex \<le> e"
    then have "e + 1 \<le> ex" by simp
    then have "(2::real) powi (e + 1) \<le> 2 powi ex" by (rule power_int_increasing) simp
    moreover have "(2::real) powi e < 2 powi (e + 1)" by (rule power_int_strict_increasing) simp_all
    ultimately show False using b(1) x xp by simp
  qed
  define k where "k = max ex (- 1022) - 52"
  have u: "ulp x = 2 powi k" by (simp only: ulp_def k_def ex_def)
  have ke: "k \<le> e" using ee e by (simp add: k_def)
  define n where "n = nat (e - k)"
  have ek: "e = k + int n" using ke by (simp add: n_def)
  have pk: "(0::real) < 2 powi k" by (simp add: zero_less_power_int)
  have split: "(2::real) powi e = 2 powi k * 2 ^ n"
    unfolding ek by (simp add: power_int_add)
  have "x / 2 powi k \<le> 2 powi e / 2 powi k" using x pk by (simp add: divide_right_mono)
  also have "\<dots> = 2 ^ n" using pk by (simp add: split)
  finally have "x / ulp x \<le> real_of_int (2 ^ n)" by (simp add: u)
  then have "roundHalfEven (x / ulp x) \<le> 2 ^ n" by (rule roundHalfEven_le)
  then have "real_of_int (roundHalfEven (x / ulp x)) \<le> 2 ^ n" by (rule of_int_le_power2)
  then have "real_of_int (roundHalfEven (x / ulp x)) * 2 powi k \<le> 2 ^ n * 2 powi k"
    using pk by (simp add: mult_right_mono)
  then show ?thesis using False by (simp add: nearest_def u split mult.commute)
qed

lemma nearest_nonneg: "0 \<le> x \<Longrightarrow> 0 \<le> nearest x"
proof -
  assume "0 \<le> x"
  then have "real_of_int 0 \<le> x / ulp x" using ulp_pos [of x] by simp
  then have "0 \<le> roundHalfEven (x / ulp x)" by (rule roundHalfEven_ge)
  then show ?thesis using ulp_pos [of x] by (simp add: nearest_def)
qed

lemma binary64_Finite:
  assumes "\<bar>x\<bar> \<le> 2 ^ 1023"
  shows "binary64 x = Finite (nearest x)"
proof -
  have "\<bar>x\<bar> / 2 ^ 53 \<le> 2 ^ 1023 / 2 ^ 53" using assms by (simp add: divide_right_mono)
  then have "\<bar>nearest x - x\<bar> \<le> 2 ^ 1023 / 2 ^ 53 + 1 / 2 ^ 1075"
    using nearest_error [of x] by linarith
  moreover have "(2::real) ^ 1023 + (2 ^ 1023 / 2 ^ 53 + 1 / 2 ^ 1075) < 2 ^ 1024" by simp
  ultimately have "\<bar>nearest x\<bar> < 2 ^ 1024" using assms by linarith
  then have "\<not> 2 ^ 1024 \<le> nearest x" "\<not> nearest x \<le> - (2 ^ 1024)" by linarith+
  then show ?thesis unfolding binary64_def Let_def by (simp only: if_False)
qed

lemma binary64_overflow:
  assumes "2 ^ 1024 \<le> x"
  shows "binary64 x = PosInfinity"
proof -
  have "(2::real) powi 1024 \<le> x" using assms by simp
  then have "(2::real) powi 1024 \<le> nearest x" by (rule nearest_ge_power [rotated]) simp
  then show ?thesis by (simp add: binary64_def Let_def)
qed

subsection \<open>Evaluation\<close>

text \<open>The bit length of a numeral is computed in chunks of 256, 16 and 1 bits.\<close>

lemma bitlen_shift: "2 ^ c \<le> x \<Longrightarrow> bitlen x = bitlen (x div 2 ^ c) + int c"
proof (induction c arbitrary: x)
  case 0
  then show ?case by simp
next
  case (Suc c)
  have "(0::int) < 2 ^ Suc c" by simp
  with Suc.prems have pos: "0 < x" by linarith
  from Suc.prems have "2 ^ c \<le> x div 2" by simp
  then have "bitlen (x div 2) = bitlen (x div 2 div 2 ^ c) + int c" by (rule Suc.IH)
  moreover have "x div 2 div 2 ^ c = x div 2 ^ Suc c"
    by (simp add: zdiv_zmult2_eq)
  moreover have "bitlen x = bitlen (x div 2) + 1" using pos by (subst compute_bitlen) simp
  ultimately show ?case by simp
qed

lemma bitlen_chunk:
  "bitlen x =
     (if 2 ^ 256 \<le> x then bitlen (x div 2 ^ 256) + 256
      else if 2 ^ 16 \<le> x then bitlen (x div 2 ^ 16) + 16
      else if 0 < x then bitlen (x div 2) + 1 else 0)"
  using bitlen_shift [of 256 x] bitlen_shift [of 16 x] compute_bitlen [of x] by simp

lemmas binary64_eval = binary64_def nearest_def ulp_def exponent_def roundHalfEven_def Let_def
  bitlen_chunk

lemmas number_eval = js_add_def js_sub_def js_mul_def js_div_def js_lt_def js_gt_def js_le_def
  js_neg_def isNaN_def signedInfinity_def Math_round_def Math_pow_def Number_EPSILON_def
  roundToDecimal_def

lemma Math_pow_10_2: "Math_pow 10 2 = Finite 100"
  by (simp add: Math_pow_def binary64_eval)

subsection \<open>Amounts of money\<close>

text \<open>
  Up to \<open>3 \<sdot> 10\<^sup>1\<^sup>2\<close> a value rounded to two places is the double nearest to a whole number
  of cents, and sums and differences of such doubles round to the sum and the difference
  of the cents.
\<close>

lemma binary64_small: "\<bar>x\<bar> \<le> 100000000000000000000 \<Longrightarrow> binary64 x = Finite (nearest x)"
proof -
  assume "\<bar>x\<bar> \<le> 100000000000000000000"
  moreover have "(100000000000000000000::real) \<le> 2 ^ 1023" by simp
  ultimately have "\<bar>x\<bar> \<le> 2 ^ 1023" by linarith
  then show ?thesis by (rule binary64_Finite)
qed

lemma nearest_error_small:
  assumes "\<bar>x\<bar> \<le> b" and "b / 2 ^ 53 + 1 / 2 ^ 1075 \<le> c"
  shows "\<bar>nearest x - x\<bar> \<le> c"
proof -
  have "\<bar>x\<bar> / 2 ^ 53 \<le> b / 2 ^ 53" using assms(1) by (simp add: divide_right_mono)
  then show ?thesis using nearest_error [of x] assms(2) by linarith
qed

text \<open>The shape of a rounded amount: the nearest binary64 value to a whole number of cents.\<close>

lemma roundToDecimal_cents:
  assumes t: "\<bar>t\<bar> \<le> 3000000000000"
  shows "\<exists>k::int. roundToDecimal (Finite t) 2 = Finite (nearest (of_int k / 100))
           \<and> \<bar>of_int k - 100 * t\<bar> \<le> 6 / 10"
proof -
  define eps :: real where "eps = 1 / 2 ^ 52"
  define y where "y = nearest (t + eps)"
  define z where "z = nearest (y * 100)"
  define k where "k = \<lfloor>z + 1 / 2\<rfloor>"
  have eps: "0 < eps" "eps \<le> 1 / 1000000000000000" by (simp_all add: eps_def)
  have te: "\<bar>t + eps\<bar> \<le> 3000000000001" using t eps by linarith
  have ey: "\<bar>y - (t + eps)\<bar> \<le> 4 / 10000"
    unfolding y_def using te by (rule nearest_error_small) simp
  have "\<bar>y\<bar> \<le> 3000000000002" using ey te by linarith
  then have yb: "\<bar>y * 100\<bar> \<le> 300000000000200" by (simp add: abs_mult)
  have ez: "\<bar>z - y * 100\<bar> \<le> 4 / 100"
    unfolding z_def using yb by (rule nearest_error_small) simp
  have kz: "of_int k \<le> z + 1 / 2" "z + 1 / 2 < of_int k + 1"
    unfolding k_def by linarith+
  have kt: "\<bar>of_int k - 100 * t\<bar> \<le> 6 / 10" using kz ez ey eps by linarith
  have "\<bar>real_of_int k\<bar> \<le> 10000000000000000000000" using kt t by linarith
  then have kb: "\<bar>real_of_int k / 100\<bar> \<le> 100000000000000000000" by simp
  have s1: "js_add (Finite t) Number_EPSILON = Finite y"
  proof -
    have "\<bar>t + eps\<bar> \<le> 100000000000000000000" using te by linarith
    then show ?thesis
      by (simp add: js_add_def Number_EPSILON_def binary64_small y_def eps_def)
  qed
  have s2: "js_mul (Finite y) (Finite 100) = Finite z"
  proof -
    have "\<bar>y * 100\<bar> \<le> 100000000000000000000" using yb by linarith
    then show ?thesis by (simp add: js_mul_def binary64_small z_def)
  qed
  have s3: "Math_round (Finite z) = Finite (of_int k)"
    by (simp add: Math_round_def k_def)
  have s4: "js_div (Finite (of_int k)) (Finite 100) = Finite (nearest (of_int k / 100))"
    using kb by (simp add: js_div_def binary64_small)
  have "roundToDecimal (Finite t) 2 = Finite (nearest (of_int k / 100))"
    by (simp add: roundToDecimal_def Math_pow_10_2 Let_def s1 s2 s3 s4)
  with kt show ?thesis by blast
qed

lemma cents_error:
  assumes "\<bar>real_of_int k\<bar> \<le> 300000000000000"
  shows "\<bar>nearest (of_int k / 100) - of_int k / 100\<bar> \<le> 4 / 10000"
proof -
  have "\<bar>real_of_int k / 100\<bar> \<le> 3000000000000" using assms by simp
  then show ?thesis by (rule nearest_error_small) simp
qed

lemma cents_Finite:
  assumes "\<bar>real_of_int k\<bar> \<le> 300000000000000"
  shows "binary64 (of_int k / 100) = Finite (nearest (of_int k / 100))"
proof -
  have "\<bar>real_of_int k / 100\<bar> \<le> 100000000000000000000" using assms by simp
  then show ?thesis by (rule binary64_small)
qed

lemma toFixed2_cents:
  assumes k: "\<bar>real_of_int k\<bar> \<le> 300000000000000"
  shows "toFixed2 (binary64 (of_int k / 100)) = Digits (k < 0) \<bar>k\<bar>"
proof -
  define x where "x = nearest (of_int k / 100)"
  have e: "\<bar>x - of_int k / 100\<bar> \<le> 4 / 10000"
    unfolding x_def using k by (rule cents_error)
  have "\<not> 1000000000000000000000 \<le> \<bar>x\<bar>" using e k by linarith
  then have small: "\<not> 10 ^ 21 \<le> \<bar>x\<bar>" by simp
  have sign: "(x < 0) = (k < 0)"
  proof (cases "k < 0")
    case True
    then have "real_of_int k \<le> - 1" by linarith
    then have "x < 0" using e by linarith
    then show ?thesis using True by simp
  next
    case False
    then have "0 \<le> real_of_int k / 100" by simp
    then have "0 \<le> x" unfolding x_def by (rule nearest_nonneg)
    then show ?thesis using False by simp
  qed
  have "\<bar>\<bar>x\<bar> - \<bar>real_of_int k\<bar> / 100\<bar> \<le> 4 / 10000" using e by linarith
  then have "\<bar>\<bar>x\<bar> * 100 - \<bar>real_of_int k\<bar>\<bar> \<le> 4 / 100" by linarith
  then have "real_of_int \<bar>k\<bar> \<le> \<bar>x\<bar> * 100 + 1 / 2" "\<bar>x\<bar> * 100 + 1 / 2 < real_of_int \<bar>k\<bar> + 1"
    by (simp_all, linarith+)
  then have fl: "\<lfloor>\<bar>x\<bar> * 100 + 1 / 2\<rfloor> = \<bar>k\<bar>" by (rule floor_unique)
  show ?thesis
    unfolding cents_Finite [OF k] x_def [symmetric] toFixed2_def
    using small sign fl by simp
qed

text \<open>Adding and subtracting two amounts of whole cents, then rounding.\<close>

lemma roundToDecimal_add_cents:
  assumes a: "\<bar>real_of_int a\<bar> \<le> 100000000000200" and b: "\<bar>real_of_int b\<bar> \<le> 100000000000200"
  shows "roundToDecimal (js_add (binary64 (of_int a / 100)) (binary64 (of_int b / 100))) 2
           = binary64 (of_int (a + b) / 100)"
proof -
  define x where "x = nearest (of_int a / 100)"
  define y where "y = nearest (of_int b / 100)"
  define t where "t = nearest (x + y)"
  have a': "\<bar>real_of_int a\<bar> \<le> 300000000000000" and b': "\<bar>real_of_int b\<bar> \<le> 300000000000000"
    using a b by linarith+
  have ex: "\<bar>x - of_int a / 100\<bar> \<le> 4 / 10000" unfolding x_def using a' by (rule cents_error)
  have ey: "\<bar>y - of_int b / 100\<bar> \<le> 4 / 10000" unfolding y_def using b' by (rule cents_error)
  have xy: "\<bar>x + y\<bar> \<le> 2000000000005" using ex ey a b by linarith
  have et: "\<bar>t - (x + y)\<bar> \<le> 4 / 10000"
    unfolding t_def using xy by (rule nearest_error_small) simp
  have tb: "\<bar>t\<bar> \<le> 3000000000000" using et xy by linarith
  have sum: "js_add (binary64 (of_int a / 100)) (binary64 (of_int b / 100)) = Finite t"
  proof -
    have "\<bar>x + y\<bar> \<le> 100000000000000000000" using xy by linarith
    then show ?thesis
      by (simp add: cents_Finite [OF a'] cents_Finite [OF b'] js_add_def binary64_small
          x_def y_def t_def)
  qed
  obtain k :: int where k: "roundToDecimal (Finite t) 2 = Finite (nearest (of_int k / 100))"
    and kt: "\<bar>of_int k - 100 * t\<bar> \<le> 6 / 10"
    using roundToDecimal_cents [OF tb] by blast
  have "\<bar>real_of_int k - (real_of_int a + real_of_int b)\<bar> < 1"
    using kt et ex ey by linarith
  then have "\<bar>real_of_int k - real_of_int (a + b)\<bar> < 1" by simp
  then have "\<bar>k - (a + b)\<bar> < 1" by linarith
  then have kab: "k = a + b" by linarith
  have "\<bar>real_of_int a + real_of_int b\<bar> \<le> 300000000000000" using a b by linarith
  then have "\<bar>real_of_int (a + b)\<bar> \<le> 300000000000000" by simp
  then have "binary64 (of_int (a + b) / 100) = Finite (nearest (of_int (a + b) / 100))"
    by (rule cents_Finite)
  then show ?thesis using sum k kab by simp
qed

lemma roundToDecimal_sub_cents:
  assumes a: "\<bar>real_of_int a\<bar> \<le> 100000000000200" and b: "\<bar>real_of_int b\<bar> \<le> 100000000000200"
  shows "roundToDecimal (js_sub (binary64 (of_int a / 100)) (binary64 (of_int b / 100))) 2
           = binary64 (of_int (a - b) / 100)"
proof -
  define x where "x = nearest (of_int a / 100)"
  define y where "y = nearest (of_int b / 100)"
  define t where "t = nearest (x - y)"
  have a': "\<bar>real_of_int a\<bar> \<le> 300000000000000" and b': "\<bar>real_of_int b\<bar> \<le> 300000000000000"
    using a b by linarith+
  have ex: "\<bar>x - of_int a / 100\<bar> \<le> 4 / 10000" unfolding x_def using a' by (rule cents_error)
  have ey: "\<bar>y - of_int b / 100\<bar> \<le> 4 / 10000" unfolding y_def using b' by (rule cents_error)
  have xy: "\<bar>x - y\<bar> \<le> 2000000000005" using ex ey a b by linarith
  have et: "\<bar>t - (x - y)\<bar> \<le> 4 / 10000"
    unfolding t_def using xy by (rule nearest_error_small) simp
  have tb: "\<bar>t\<bar> \<le> 3000000000000" using et xy by linarith
  have diff: "js_sub (binary64 (of_int a / 100)) (binary64 (of_int b / 100)) = Finite t"
  proof -
    have "\<bar>x - y\<bar> \<le> 100000000000000000000" using xy by linarith
    then show ?thesis
      by (simp add: cents_Finite [OF a'] cents_Finite [OF b'] js_sub_def binary64_small
          x_def y_def t_def)
  qed
  obtain k :: int where k: "roundToDecimal (Finite t) 2 = Finite (nearest (of_int k / 100))"
    and kt: "\<bar>of_int k - 100 * t\<bar> \<le> 6 / 10"
    using roundToDecimal_cents [OF tb] by blast
  have "\<bar>real_of_int k - (real_of_int a - real_of_int b)\<bar> < 1"
    using kt et ex ey by linarith
  then have "\<bar>real_of_int k - real_of_int (a - b)\<bar> < 1" by simp
  then have "\<bar>k - (a - b)\<bar> < 1" by linarith
  then have kab: "k = a - b" by linarith
  have "\<bar>real_of_int a - real_of_int b\<bar> \<le> 300000000000000" using a b by linarith
  then have "\<bar>real_of_int (a - b)\<bar> \<le> 300000000000000" by simp
  then have "binary64 (of_int (a - b) / 100) = Finite (nearest (of_int (a - b) / 100))"
    by (rule cents_Finite)
  then show ?thesis using diff k kab by simp
qed

text \<open>Rounding an amount between 0 and \<open>10\<^sup>1\<^sup>2 + 1\<close>.\<close>

lemma roundToDecimal_amount:
  assumes "0 \<le> t" and "t \<le> 1000000000001"
  shows "\<exists>k::int. roundToDecimal (Finite t) 2 = binary64 (of_int k / 100)
           \<and> 0 \<le> k \<and> real_of_int k \<le> 100000000000200"
proof -
  have "\<bar>t\<bar> \<le> 3000000000000" using assms by linarith
  then obtain k :: int
    where k: "roundToDecimal (Finite t) 2 = Finite (nearest (of_int k / 100))"
      and kt: "\<bar>of_int k - 100 * t\<bar> \<le> 6 / 10"
    using roundToDecimal_cents by blast
  have "- 1 < real_of_int k" using kt assms by linarith
  then have k0: "0 \<le> k" by linarith
  have kb: "real_of_int k \<le> 100000000000200" using kt assms by linarith
  then have "\<bar>real_of_int k\<bar> \<le> 300000000000000" using k0 by simp
  then have "binary64 (of_int k / 100) = Finite (nearest (of_int k / 100))"
    by (rule cents_Finite)
  with k have "roundToDecimal (Finite t) 2 = binary64 (of_int k / 100)" by simp
  with k0 kb show ?thesis by blast
qed

text \<open>The rate as a fraction: between 0 and a little above 1.\<close>

lemma rate_fraction:
  assumes "0 \<le> r" and "r \<le> 100"
  shows "\<exists>q. js_div (Finite r) (Finite 100) = Finite q \<and> 0 \<le> q \<and> q \<le> 1 + 1 / 1000000000000000"
proof -
  define q where "q = nearest (r / 100)"
  have b: "\<bar>r / 100\<bar> \<le> 1" using assms by simp
  have "\<bar>q - r / 100\<bar> \<le> 1 / 1000000000000000"
    unfolding q_def using b by (rule nearest_error_small) simp
  then have "q \<le> 1 + 1 / 1000000000000000" using b by linarith
  moreover have "0 \<le> q" unfolding q_def using assms by (intro nearest_nonneg) simp
  moreover have "js_div (Finite r) (Finite 100) = Finite q"
  proof -
    have "\<bar>r / 100\<bar> \<le> 100000000000000000000" using b by linarith
    then show ?thesis by (simp add: js_div_def binary64_small q_def)
  qed
  ultimately show ?thesis by blast
qed

section \<open>The VAT engine\<close>

lemma divisor_bounds:
  assumes "0 \<le> r" and "r \<le> 100"
  shows "\<exists>d. js_add (Finite 1) (js_div (Finite r) (Finite 100)) = Finite d \<and> 1 \<le> d \<and> d \<le> 2"
proof -
  define q where "q = nearest (r / 100)"
  have "r / 100 \<le> 2 powi 0" using assms by simp
  then have q1: "q \<le> 1"
    unfolding q_def using nearest_le_power [of 0 "r / 100"] assms by simp
  have q0: "0 \<le> q" unfolding q_def using assms by (intro nearest_nonneg) simp
  have "\<bar>r / 100\<bar> \<le> 2 ^ 1023" using assms by simp
  then have qq: "js_div (Finite r) (Finite 100) = Finite q"
    by (simp add: js_div_def q_def binary64_Finite)
  define d where "d = nearest (1 + q)"
  have "1 + q \<le> 2 powi 1" using q1 by simp
  then have d2: "d \<le> 2"
    unfolding d_def using nearest_le_power [of 1 "1 + q"] q0 by simp
  have "(2::real) powi 0 \<le> 1 + q" using q0 by simp
  then have d1: "1 \<le> d"
    unfolding d_def using nearest_ge_power [of 0 "1 + q"] by simp
  have "\<bar>1 + q\<bar> \<le> 2 ^ 1023" using q0 q1 by simp
  then have "js_add (Finite 1) (Finite q) = Finite d"
    by (simp add: js_add_def d_def binary64_Finite)
  with qq d1 d2 show ?thesis by simp
qed

lemma guards_pass:
  assumes "0 \<le> p" and "0 \<le> r" and "r \<le> 100"
  shows "\<not> js_lt (Finite p) (Finite 0)" and "\<not> js_lt (Finite r) (Finite 0)"
    and "\<not> js_gt (Finite r) (Finite 100)"
  using assms by (simp_all add: js_lt_def js_gt_def)

lemma addVat_cents:
  assumes p: "0 \<le> p" "p \<le> 1000000000000" and r: "0 \<le> r" "r \<le> 100"
  shows "\<exists>e v :: int. 0 \<le> e \<and> 0 \<le> v
           \<and> real_of_int e \<le> 100000000000200 \<and> real_of_int v \<le> 100000000000200
           \<and> addVat (Finite p) (Finite r) now =
               Inr \<lparr> mode = Add, vatRate = Finite r,
                     priceExcludingVat = binary64 (of_int e / 100),
                     vatAmount = binary64 (of_int v / 100),
                     priceIncludingVat = binary64 (of_int (e + v) / 100),
                     timestamp = now \<rparr>"
proof -
  have "p \<le> 1000000000001" using p by linarith
  with p(1) obtain e :: int
    where e: "roundToDecimal (Finite p) 2 = binary64 (of_int e / 100)" "0 \<le> e"
      "real_of_int e \<le> 100000000000200"
    using roundToDecimal_amount by blast
  obtain q where q: "js_div (Finite r) (Finite 100) = Finite q" "0 \<le> q"
    "q \<le> 1 + 1 / 1000000000000000"
    using rate_fraction [OF r] by blast
  define w where "w = nearest (p * q)"
  have pq0: "0 \<le> p * q" using p q by simp
  have "p * q \<le> 1000000000000 * (1 + 1 / 1000000000000000)"
    using p q by (intro mult_mono) simp_all
  then have pq: "p * q \<le> 1000000000000 + 1 / 1000" by simp
  have pqb: "\<bar>p * q\<bar> \<le> 1000000000001" using pq pq0 by linarith
  have "\<bar>w - p * q\<bar> \<le> 4 / 10000"
    unfolding w_def using pqb by (rule nearest_error_small) simp
  then have w1: "w \<le> 1000000000001" using pq by linarith
  have w0: "0 \<le> w" unfolding w_def using pq0 by (rule nearest_nonneg)
  have "\<bar>p * q\<bar> \<le> 100000000000000000000" using pqb by linarith
  then have mul: "js_mul (Finite p) (Finite q) = Finite w"
    by (simp add: js_mul_def binary64_small w_def)
  from w0 w1 obtain v :: int
    where v: "roundToDecimal (Finite w) 2 = binary64 (of_int v / 100)" "0 \<le> v"
      "real_of_int v \<le> 100000000000200"
    using roundToDecimal_amount by blast
  have ea: "\<bar>real_of_int e\<bar> \<le> 100000000000200" using e by simp
  have va: "\<bar>real_of_int v\<bar> \<le> 100000000000200" using v by simp
  have "addVat (Finite p) (Finite r) now =
               Inr \<lparr> mode = Add, vatRate = Finite r,
                     priceExcludingVat = binary64 (of_int e / 100),
                     vatAmount = binary64 (of_int v / 100),
                     priceIncludingVat = binary64 (of_int (e + v) / 100),
                     timestamp = now \<rparr>"
    using guards_pass [OF p(1) r]
    by (simp add: addVat_def Let_def q mul e(1) v(1) roundToDecimal_add_cents [OF ea va])
  with e v show ?thesis by blast
qed

lemma extractVat_cents:
  assumes p: "0 \<le> p" "p \<le> 1000000000000" and r: "0 \<le> r" "r \<le> 100"
  shows "\<exists>i e :: int. 0 \<le> i \<and> 0 \<le> e
           \<and> real_of_int i \<le> 100000000000200 \<and> real_of_int e \<le> 100000000000200
           \<and> extractVat (Finite p) (Finite r) now =
               Inr \<lparr> mode = Extract, vatRate = Finite r,
                     priceExcludingVat = binary64 (of_int e / 100),
                     vatAmount = binary64 (of_int (i - e) / 100),
                     priceIncludingVat = binary64 (of_int i / 100),
                     timestamp = now \<rparr>"
proof -
  have "p \<le> 1000000000001" using p by linarith
  with p(1) obtain i :: int
    where i: "roundToDecimal (Finite p) 2 = binary64 (of_int i / 100)" "0 \<le> i"
      "real_of_int i \<le> 100000000000200"
    using roundToDecimal_amount by blast
  obtain d where d: "js_add (Finite 1) (js_div (Finite r) (Finite 100)) = Finite d" "1 \<le> d"
    using divisor_bounds [OF r] by blast
  define u where "u = nearest (p / d)"
  have q0: "0 \<le> p / d" using p d by simp
  have "p / d \<le> p / 1" using p d by (intro divide_left_mono) simp_all
  then have q1: "p / d \<le> 1000000000000" using p by simp
  have qb: "\<bar>p / d\<bar> \<le> 1000000000001" using q0 q1 by linarith
  have "\<bar>u - p / d\<bar> \<le> 4 / 10000"
    unfolding u_def using qb by (rule nearest_error_small) simp
  then have u1: "u \<le> 1000000000001" using q1 by linarith
  have u0: "0 \<le> u" unfolding u_def using q0 by (rule nearest_nonneg)
  have "\<bar>p / d\<bar> \<le> 100000000000000000000" using qb by linarith
  moreover have "d \<noteq> 0" using d by linarith
  ultimately have quot: "js_div (Finite p) (Finite d) = Finite u"
    by (simp add: js_div_def binary64_small u_def)
  from u0 u1 obtain e :: int
    where e: "roundToDecimal (Finite u) 2 = binary64 (of_int e / 100)" "0 \<le> e"
      "real_of_int e \<le> 100000000000200"
    using roundToDecimal_amount by blast
  have ia: "\<bar>real_of_int i\<bar> \<le> 100000000000200" using i by simp
  have ea: "\<bar>real_of_int e\<bar> \<le> 100000000000200" using e by simp
  have "extractVat (Finite p) (Finite r) now =
               Inr \<lparr> mode = Extract, vatRate = Finite r,
                     priceExcludingVat = binary64 (of_int e / 100),
                     vatAmount = binary64 (of_int (i - e) / 100),
                     priceIncludingVat = binary64 (of_int i / 100),
                     timestamp = now \<rparr>"
    using guards_pass [OF p(1) r]
    by (simp add: extractVat_def Let_def d(1) quot i(1) e(1) roundToDecimal_sub_cents [OF ia ea])
  with i e show ?thesis by blast
qed

section \<open>Rounding to two places\<close>

lemmas vat_eval = addVat_def extractVat_def calculateVat_def number_eval binary64_eval

text \<open>
  C9. The rounding vector. The sum \<open>0.1 + 0.2\<close> is the binary64 sum of the doubles nearest
  to \<open>0.1\<close> and \<open>0.2\<close>: it is \<open>5404319552844596 / 2\<^sup>5\<^sup>4\<close>, which is not the double nearest
  to \<open>0.3\<close>, and it rounds to the double nearest to \<open>0.30\<close>. \<open>10.125\<close> rounds to \<open>10.13\<close>
  and \<open>-10.125\<close> rounds to \<open>-10.12\<close>.
\<close>

theorem roundToDecimal_vector:
  "roundToDecimal (js_add (binary64 (1 / 10)) (binary64 (2 / 10))) 2 = binary64 (30 / 100)
   \<and> js_add (binary64 (1 / 10)) (binary64 (2 / 10)) = Finite (5404319552844596 / 2 ^ 54)
   \<and> js_add (binary64 (1 / 10)) (binary64 (2 / 10)) \<noteq> binary64 (30 / 100)
   \<and> roundToDecimal (Finite (10125 / 1000)) 2 = binary64 (1013 / 100)
   \<and> roundToDecimal (Finite (- (10125 / 1000))) 2 = binary64 (- (1012 / 100))"
  by (simp add: number_eval binary64_eval)



section \<open>Results of the VAT engine\<close>

text \<open>
  C8. The worked scenarios, a decimal literal being the double nearest to it:
  \<open>addVat(100, 7.5)\<close> gives 100.00, 7.50 and 107.50; \<open>addVat(99.99, 7.5)\<close> gives 99.99,
  7.50 and 107.49, the VAT being the unrounded binary64 product (within \<open>10\<^sup>-\<^sup>1\<^sup>5\<close> of
  7.49925) rounded once to 7.50 and not 7.49; \<open>extractVat(12900, 7.5)\<close> gives 12900.00,
  12000.00 and 900.00; \<open>addVat(0.01, 7.5)\<close> has VAT 0.00.
\<close>

theorem worked_scenarios:
  "addVat (Finite 100) (Finite (75 / 10)) now =
      Inr \<lparr> mode = Add, vatRate = Finite (75 / 10), priceExcludingVat = Finite 100,
            vatAmount = Finite (750 / 100), priceIncludingVat = Finite (10750 / 100),
            timestamp = now \<rparr>
   \<and> addVat (binary64 (9999 / 100)) (Finite (75 / 10)) now =
      Inr \<lparr> mode = Add, vatRate = Finite (75 / 10), priceExcludingVat = binary64 (9999 / 100),
            vatAmount = Finite (750 / 100), priceIncludingVat = binary64 (10749 / 100),
            timestamp = now \<rparr>
   \<and> js_mul (binary64 (9999 / 100)) (js_div (Finite (75 / 10)) (Finite 100))
       = Finite (8443404876389547 / 2 ^ 50)
   \<and> \<bar>8443404876389547 / 2 ^ 50 - 749925 / 100000\<bar> < (1 / 10 ^ 15 :: real)
   \<and> roundToDecimal (Finite (8443404876389547 / 2 ^ 50)) 2 = Finite (750 / 100)
   \<and> Finite (750 / 100) \<noteq> binary64 (749 / 100)
   \<and> extractVat (Finite 12900) (Finite (75 / 10)) now =
      Inr \<lparr> mode = Extract, vatRate = Finite (75 / 10), priceExcludingVat = Finite 12000,
            vatAmount = Finite 900, priceIncludingVat = Finite 12900, timestamp = now \<rparr>
   \<and> addVat (binary64 (1 / 100)) (Finite (75 / 10)) now =
      Inr \<lparr> mode = Add, vatRate = Finite (75 / 10), priceExcludingVat = binary64 (1 / 100),
            vatAmount = Finite 0, priceIncludingVat = binary64 (1 / 100), timestamp = now \<rparr>"
  by (simp add: vat_eval)

text \<open>
  C1, as stated: for every price \<open>\<ge> 0\<close> and every rate in \<open>[0, 100]\<close> the money fields
  satisfy \<open>priceExcludingVat + vatAmount = priceIncludingVat\<close> exactly to two decimals.
  It fails at \<open>addVat(32758320672135, 7.5)\<close>: the fields print as
  \<open>32758320672135.00\<close>, \<open>2456874050410.13\<close> and \<open>35215194722545.14\<close>, one cent more than
  the sum of the first two, and the binary64 sum of the first two fields is not the third.
\<close>

theorem additive_invariant_counterexample:
  "addVat (Finite 32758320672135) (Finite (75 / 10)) 0 =
      Inr \<lparr> mode = Add, vatRate = Finite (75 / 10),
            priceExcludingVat = Finite 32758320672135,
            vatAmount = binary64 (245687405041013 / 100),
            priceIncludingVat = binary64 (3521519472254514 / 100), timestamp = 0 \<rparr>
   \<and> toFixed2 (Finite 32758320672135) = Digits False 3275832067213500
   \<and> toFixed2 (binary64 (245687405041013 / 100)) = Digits False 245687405041013
   \<and> toFixed2 (binary64 (3521519472254514 / 100)) = Digits False 3521519472254514
   \<and> (3275832067213500 :: int) + 245687405041013 \<noteq> 3521519472254514
   \<and> js_add (Finite 32758320672135) (binary64 (245687405041013 / 100))
       \<noteq> binary64 (3521519472254514 / 100)"
  by (simp add: vat_eval toFixed2_def)

text \<open>
  C1, amended: for every amount in \<open>[0, 10\<^sup>1\<^sup>2]\<close> and every rate in \<open>[0, 100]\<close>, \<open>addVat\<close>
  and \<open>extractVat\<close> return a result whose three money fields are the doubles nearest to
  whole numbers of cents, print with \<^verbatim>\<open>toFixed(2)\<close> as those cents, and the cents of
  \<open>priceExcludingVat\<close> and of \<open>vatAmount\<close> add up to the cents of \<open>priceIncludingVat\<close>;
  the binary64 sum of the first two fields, rounded to two places, is the third.
\<close>

theorem additive_invariant:
  assumes "0 \<le> amt" and "amt \<le> 10 ^ 12" and "0 \<le> rate" and "rate \<le> 100"
  shows "(\<exists>e v :: int. 0 \<le> e \<and> 0 \<le> v
            \<and> addVat (Finite amt) (Finite rate) now =
                Inr \<lparr> mode = Add, vatRate = Finite rate,
                      priceExcludingVat = binary64 (of_int e / 100),
                      vatAmount = binary64 (of_int v / 100),
                      priceIncludingVat = binary64 (of_int (e + v) / 100),
                      timestamp = now \<rparr>
            \<and> toFixed2 (binary64 (of_int e / 100)) = Digits False e
            \<and> toFixed2 (binary64 (of_int v / 100)) = Digits False v
            \<and> toFixed2 (binary64 (of_int (e + v) / 100)) = Digits False (e + v)
            \<and> roundToDecimal (js_add (binary64 (of_int e / 100)) (binary64 (of_int v / 100))) 2
                = binary64 (of_int (e + v) / 100))
       \<and> (\<exists>i e :: int. 0 \<le> i \<and> 0 \<le> e
            \<and> extractVat (Finite amt) (Finite rate) now =
                Inr \<lparr> mode = Extract, vatRate = Finite rate,
                      priceExcludingVat = binary64 (of_int e / 100),
                      vatAmount = binary64 (of_int (i - e) / 100),
                      priceIncludingVat = binary64 (of_int i / 100),
                      timestamp = now \<rparr>
            \<and> toFixed2 (binary64 (of_int e / 100)) = Digits False e
            \<and> toFixed2 (binary64 (of_int (i - e) / 100)) = Digits (i < e) \<bar>i - e\<bar>
            \<and> toFixed2 (binary64 (of_int i / 100)) = Digits False i
            \<and> roundToDecimal
                 (js_add (binary64 (of_int e / 100)) (binary64 (of_int (i - e) / 100))) 2
                = binary64 (of_int i / 100))"
proof -
  have amt: "amt \<le> 1000000000000" using assms(2) by simp
  have forAdd: "\<exists>e v :: int. 0 \<le> e \<and> 0 \<le> v
            \<and> addVat (Finite amt) (Finite rate) now =
                Inr \<lparr> mode = Add, vatRate = Finite rate,
                      priceExcludingVat = binary64 (of_int e / 100),
                      vatAmount = binary64 (of_int v / 100),
                      priceIncludingVat = binary64 (of_int (e + v) / 100),
                      timestamp = now \<rparr>
            \<and> toFixed2 (binary64 (of_int e / 100)) = Digits False e
            \<and> toFixed2 (binary64 (of_int v / 100)) = Digits False v
            \<and> toFixed2 (binary64 (of_int (e + v) / 100)) = Digits False (e + v)
            \<and> roundToDecimal (js_add (binary64 (of_int e / 100)) (binary64 (of_int v / 100))) 2
                = binary64 (of_int (e + v) / 100)"
  proof -
    obtain e v :: int where ev: "0 \<le> e" "0 \<le> v" "real_of_int e \<le> 100000000000200"
      "real_of_int v \<le> 100000000000200"
      and res: "addVat (Finite amt) (Finite rate) now =
                  Inr \<lparr> mode = Add, vatRate = Finite rate,
                        priceExcludingVat = binary64 (of_int e / 100),
                        vatAmount = binary64 (of_int v / 100),
                        priceIncludingVat = binary64 (of_int (e + v) / 100),
                        timestamp = now \<rparr>"
      using addVat_cents [OF assms(1) amt assms(3,4), of now] by blast
    have small: "\<bar>real_of_int e\<bar> \<le> 100000000000200" "\<bar>real_of_int v\<bar> \<le> 100000000000200"
      using ev by simp_all
    have "\<bar>real_of_int e\<bar> \<le> 300000000000000" "\<bar>real_of_int v\<bar> \<le> 300000000000000"
      "\<bar>real_of_int (e + v)\<bar> \<le> 300000000000000"
      using ev by simp_all
    then have "toFixed2 (binary64 (of_int e / 100)) = Digits False e"
      "toFixed2 (binary64 (of_int v / 100)) = Digits False v"
      "toFixed2 (binary64 (of_int (e + v) / 100)) = Digits False (e + v)"
      using ev toFixed2_cents [of e] toFixed2_cents [of v] toFixed2_cents [of "e + v"]
      by simp_all
    with ev res roundToDecimal_add_cents [OF small] show ?thesis by blast
  qed
  have forExtract: "\<exists>i e :: int. 0 \<le> i \<and> 0 \<le> e
            \<and> extractVat (Finite amt) (Finite rate) now =
                Inr \<lparr> mode = Extract, vatRate = Finite rate,
                      priceExcludingVat = binary64 (of_int e / 100),
                      vatAmount = binary64 (of_int (i - e) / 100),
                      priceIncludingVat = binary64 (of_int i / 100),
                      timestamp = now \<rparr>
            \<and> toFixed2 (binary64 (of_int e / 100)) = Digits False e
            \<and> toFixed2 (binary64 (of_int (i - e) / 100)) = Digits (i < e) \<bar>i - e\<bar>
            \<and> toFixed2 (binary64 (of_int i / 100)) = Digits False i
            \<and> roundToDecimal
                 (js_add (binary64 (of_int e / 100)) (binary64 (of_int (i - e) / 100))) 2
                = binary64 (of_int i / 100)"
  proof -
    obtain i e :: int where ie: "0 \<le> i" "0 \<le> e" "real_of_int i \<le> 100000000000200"
      "real_of_int e \<le> 100000000000200"
      and res: "extractVat (Finite amt) (Finite rate) now =
                  Inr \<lparr> mode = Extract, vatRate = Finite rate,
                        priceExcludingVat = binary64 (of_int e / 100),
                        vatAmount = binary64 (of_int (i - e) / 100),
                        priceIncludingVat = binary64 (of_int i / 100),
                        timestamp = now \<rparr>"
      using extractVat_cents [OF assms(1) amt assms(3,4), of now] by blast
    have small: "\<bar>real_of_int e\<bar> \<le> 100000000000200"
      "\<bar>real_of_int (i - e)\<bar> \<le> 100000000000200"
      using ie by simp_all
    have "e + (i - e) = i" by simp
    with roundToDecimal_add_cents [OF small]
    have sum: "roundToDecimal
                 (js_add (binary64 (of_int e / 100)) (binary64 (of_int (i - e) / 100))) 2
                = binary64 (of_int i / 100)"
      by (simp only:)
    have "\<bar>real_of_int e\<bar> \<le> 300000000000000" "\<bar>real_of_int i\<bar> \<le> 300000000000000"
      "\<bar>real_of_int (i - e)\<bar> \<le> 300000000000000"
      using ie by simp_all
    then have "toFixed2 (binary64 (of_int e / 100)) = Digits False e"
      "toFixed2 (binary64 (of_int (i - e) / 100)) = Digits (i < e) \<bar>i - e\<bar>"
      "toFixed2 (binary64 (of_int i / 100)) = Digits False i"
      using ie toFixed2_cents [of e] toFixed2_cents [of "i - e"] toFixed2_cents [of i]
      by simp_all
    with ie res sum show ?thesis by blast
  qed
  from forAdd forExtract show ?thesis ..
qed

theorem additive_invariant_witness:
  "(0::real) \<le> 29 \<and> (29::real) \<le> 10 ^ 12 \<and> (0::real) \<le> 75 / 10 \<and> (75 / 10 :: real) \<le> 100
   \<and> addVat (Finite 29) (Finite (75 / 10)) 0 =
        Inr \<lparr> mode = Add, vatRate = Finite (75 / 10),
              priceExcludingVat = binary64 (2900 / 100), vatAmount = binary64 (217 / 100),
              priceIncludingVat = binary64 (3117 / 100), timestamp = 0 \<rparr>
   \<and> extractVat (Finite 29) (Finite (75 / 10)) 0 =
        Inr \<lparr> mode = Extract, vatRate = Finite (75 / 10),
              priceExcludingVat = binary64 (2698 / 100), vatAmount = binary64 (202 / 100),
              priceIncludingVat = binary64 (2900 / 100), timestamp = 0 \<rparr>"
proof -
  have h: "(0::real) \<le> 29" "(29::real) \<le> 10 ^ 12" "(0::real) \<le> 75 / 10"
    "(75 / 10 :: real) \<le> 100"
    by simp_all
  show ?thesis
    using additive_invariant [OF h, of 0]
    by (simp add: vat_eval)
qed

subsection \<open>Overflow\<close>

lemma binary64_ge_power:
  assumes "- 1022 \<le> e" and "2 powi e \<le> x"
  shows "binary64 x = PosInfinity \<or> (\<exists>y. binary64 x = Finite y \<and> 2 powi e \<le> y)"
proof -
  have n: "2 powi e \<le> nearest x" using assms by (rule nearest_ge_power)
  have "(0::real) < 2 powi e" by (simp add: zero_less_power_int)
  moreover have "(0::real) < 2 ^ 1024" by simp
  ultimately have "\<not> nearest x \<le> - (2 ^ 1024)" using n by linarith
  then show ?thesis using n unfolding binary64_def Let_def by (simp only: if_False) simp
qed

lemma binary64_nonneg:
  assumes "0 \<le> x"
  shows "binary64 x = PosInfinity \<or> (\<exists>y. binary64 x = Finite y \<and> 0 \<le> y)"
proof -
  have n: "0 \<le> nearest x" using assms by (rule nearest_nonneg)
  moreover have "(0::real) < 2 ^ 1024" by simp
  ultimately have "\<not> nearest x \<le> - (2 ^ 1024)" by linarith
  then show ?thesis using n unfolding binary64_def Let_def by (simp only: if_False) simp
qed

lemma roundToDecimal_PosInfinity: "roundToDecimal PosInfinity 2 = PosInfinity"
  by (simp add: roundToDecimal_def Math_pow_10_2 js_add_def js_mul_def js_div_def
      Math_round_def Number_EPSILON_def signedInfinity_def)

lemma roundToDecimal_NaN: "roundToDecimal NaN 2 = NaN"
  by (simp add: roundToDecimal_def Math_pow_10_2 js_add_def js_mul_def js_div_def
      Math_round_def Number_EPSILON_def)

lemma roundToDecimal_overflow:
  assumes "2 ^ 1018 \<le> t"
  shows "roundToDecimal (Finite t) 2 = PosInfinity"
proof -
  have "(2::real) powi 1018 \<le> t + 1 / 2 ^ 52" using assms by simp
  then consider "binary64 (t + 1 / 2 ^ 52) = PosInfinity"
    | y where "binary64 (t + 1 / 2 ^ 52) = Finite y" "2 powi 1018 \<le> y"
    using binary64_ge_power [of 1018 "t + 1 / 2 ^ 52"] by auto
  then have "js_mul (js_add (Finite t) Number_EPSILON) (Finite 100) = PosInfinity"
  proof cases
    case 1
    then show ?thesis
      by (simp add: js_add_def js_mul_def Number_EPSILON_def signedInfinity_def)
  next
    case 2
    have "(2::real) ^ 1024 = 2 ^ 1018 * 64" by simp
    also have "\<dots> \<le> y * 100" using 2(2) by simp
    finally have "binary64 (y * 100) = PosInfinity" by (rule binary64_overflow)
    with 2(1) show ?thesis by (simp add: js_add_def js_mul_def Number_EPSILON_def)
  qed
  then show ?thesis
    by (simp add: roundToDecimal_def Math_pow_10_2 Math_round_def js_div_def)
qed

lemma extractVat_overflow:
  assumes p: "2 ^ 1019 \<le> p" and r: "0 \<le> r" "r \<le> 100"
  shows "extractVat (Finite p) (Finite r) now =
           Inr \<lparr> mode = Extract, vatRate = Finite r, priceExcludingVat = PosInfinity,
                 vatAmount = NaN, priceIncludingVat = PosInfinity, timestamp = now \<rparr>"
proof -
  have p0: "0 \<le> p" and p1: "2 ^ 1018 \<le> p" using p by simp_all
  have incl: "roundToDecimal (Finite p) 2 = PosInfinity" using p1 by (rule roundToDecimal_overflow)
  obtain d where d: "js_add (Finite 1) (js_div (Finite r) (Finite 100)) = Finite d"
    "1 \<le> d" "d \<le> 2"
    using divisor_bounds [OF r] by blast
  have "2 ^ 1018 * d \<le> 2 ^ 1018 * 2" using d by simp
  also have "\<dots> \<le> p" using p by simp
  finally have "2 ^ 1018 \<le> p / d" using d by (simp add: pos_le_divide_eq)
  then have q: "(2::real) powi 1018 \<le> p / d" by simp
  have dn: "d \<noteq> 0" using d by simp
  consider "binary64 (p / d) = PosInfinity"
    | y where "binary64 (p / d) = Finite y" "2 powi 1018 \<le> y"
    using binary64_ge_power [OF _ q] by auto
  then have excl: "roundToDecimal (js_div (Finite p) (Finite d)) 2 = PosInfinity"
  proof cases
    case 1
    then show ?thesis using dn by (simp add: js_div_def roundToDecimal_PosInfinity)
  next
    case 2
    then have "2 ^ 1018 \<le> y" by simp
    then have "roundToDecimal (Finite y) 2 = PosInfinity" by (rule roundToDecimal_overflow)
    with 2(1) show ?thesis using dn by (simp add: js_div_def)
  qed
  have vat: "roundToDecimal (js_sub PosInfinity PosInfinity) 2 = NaN"
    by (simp add: js_sub_def roundToDecimal_NaN)
  show ?thesis
    using guards_pass [OF p0 r] incl excl vat d(1)
    by (simp add: extractVat_def Let_def)
qed

text \<open>
  C10, as stated: on its non-error domain \<open>extractVat\<close> never reaches an undefined value.
  It fails at \<open>extractVat(1e307, 7.5)\<close>: the total and the quotient overflow to
  \<^verbatim>\<open>Infinity\<close> when they are scaled by 100, and the VAT amount, their difference, is
  \<^verbatim>\<open>NaN\<close>.
\<close>

theorem extractVat_divisor_counterexample:
  "extractVat (binary64 (10 ^ 307)) (Finite (75 / 10)) 0 =
      Inr \<lparr> mode = Extract, vatRate = Finite (75 / 10), priceExcludingVat = PosInfinity,
            vatAmount = NaN, priceIncludingVat = PosInfinity, timestamp = 0 \<rparr>
   \<and> binary64 (10 ^ 307) = Finite (nearest (10 ^ 307))
   \<and> js_le (Finite 0) (binary64 (10 ^ 307))
   \<and> js_le (Finite 0) (Finite (75 / 10)) \<and> js_le (Finite (75 / 10)) (Finite 100)
   \<and> isNaN (js_sub PosInfinity PosInfinity)"
proof -
  have r: "(0::real) \<le> 75 / 10" "(75 / 10 :: real) \<le> 100" by simp_all
  have "\<bar>10 ^ 307 :: real\<bar> \<le> 2 ^ 1023" by simp
  then have f: "binary64 (10 ^ 307) = Finite (nearest (10 ^ 307))" by (rule binary64_Finite)
  have "(2::real) powi 1019 \<le> 10 ^ 307" by simp
  then have "(2::real) powi 1019 \<le> nearest (10 ^ 307)" by (intro nearest_ge_power) simp_all
  then have big: "(2::real) ^ 1019 \<le> nearest (10 ^ 307)" by simp
  have "(0::real) \<le> 2 ^ 1019" by simp
  with big have pos: "0 \<le> nearest (10 ^ 307)" by linarith
  have le: "js_le (Finite 0) (Finite (nearest (10 ^ 307)))"
    using pos by (auto simp add: js_le_def js_lt_def)
  have rest: "js_le (Finite 0) (Finite (75 / 10))" "js_le (Finite (75 / 10)) (Finite 100)"
    "isNaN (js_sub PosInfinity PosInfinity)"
    by (simp_all add: js_le_def js_lt_def js_sub_def isNaN_def)
  show ?thesis
    unfolding f
    using extractVat_overflow [OF big r, of 0] le rest
    by (simp only: simp_thms)
qed

text \<open>
  C10, amended: for a rate in \<open>[0, 100]\<close> the divisor \<open>1 + rate / 100\<close>, as binary64
  computes it, is a finite number between 1 and 2, so it is not zero; for a finite total
  \<open>\<ge> 0\<close> the quotient is the correctly rounded \<open>total / divisor\<close>, it is not \<^verbatim>\<open>NaN\<close>
  and not negative, and \<open>extractVat\<close> returns a result whose price excluding VAT is that
  quotient rounded. For a total of at most \<open>10\<^sup>1\<^sup>2\<close> the three money fields are the doubles
  nearest to whole numbers of cents.
\<close>

theorem extractVat_divisor:
  assumes "0 \<le> amt" and "0 \<le> rate" and "rate \<le> 100"
  shows "\<exists>d. js_add (Finite 1) (js_div (Finite rate) (Finite 100)) = Finite d
           \<and> 1 \<le> d \<and> d \<le> 2 \<and> d \<noteq> 0
           \<and> js_div (Finite amt) (Finite d) = binary64 (amt / d)
           \<and> \<not> isNaN (js_div (Finite amt) (Finite d))
           \<and> js_le (Finite 0) (js_div (Finite amt) (Finite d))
           \<and> (\<exists>res. extractVat (Finite amt) (Finite rate) now = Inr res
                  \<and> priceExcludingVat res = roundToDecimal (js_div (Finite amt) (Finite d)) 2
                  \<and> (amt \<le> 10 ^ 12 \<longrightarrow>
                       (\<exists>i e :: int. 0 \<le> i \<and> 0 \<le> e
                          \<and> priceIncludingVat res = binary64 (of_int i / 100)
                          \<and> priceExcludingVat res = binary64 (of_int e / 100)
                          \<and> vatAmount res = binary64 (of_int (i - e) / 100)
                          \<and> toFixed2 (priceIncludingVat res) = Digits False i
                          \<and> toFixed2 (priceExcludingVat res) = Digits False e
                          \<and> toFixed2 (vatAmount res) = Digits (i < e) \<bar>i - e\<bar>)))"
proof -
  obtain d where d: "js_add (Finite 1) (js_div (Finite rate) (Finite 100)) = Finite d"
    "1 \<le> d" "d \<le> 2"
    using divisor_bounds [OF assms(2,3)] by blast
  have dn: "d \<noteq> 0" using d by simp
  have q: "js_div (Finite amt) (Finite d) = binary64 (amt / d)" using dn by (simp add: js_div_def)
  have "0 \<le> amt / d" using assms d by simp
  then have c: "binary64 (amt / d) = PosInfinity \<or> (\<exists>y. binary64 (amt / d) = Finite y \<and> 0 \<le> y)"
    by (rule binary64_nonneg)
  have nn: "\<not> isNaN (binary64 (amt / d))" using c by (auto simp add: isNaN_def)
  have le: "js_le (Finite 0) (binary64 (amt / d))"
    using c by (auto simp add: js_le_def js_lt_def)
  let ?res = "\<lparr> mode = Extract, vatRate = Finite rate,
      priceExcludingVat = roundToDecimal (js_div (Finite amt) (Finite d)) 2,
      vatAmount = roundToDecimal (js_sub (roundToDecimal (Finite amt) 2)
                     (roundToDecimal (js_div (Finite amt) (Finite d)) 2)) 2,
      priceIncludingVat = roundToDecimal (Finite amt) 2, timestamp = now \<rparr>"
  have res: "extractVat (Finite amt) (Finite rate) now = Inr ?res"
    using guards_pass [OF assms] d(1) by (simp add: extractVat_def Let_def)
  have small: "\<exists>i e :: int. 0 \<le> i \<and> 0 \<le> e
                  \<and> priceIncludingVat ?res = binary64 (of_int i / 100)
                  \<and> priceExcludingVat ?res = binary64 (of_int e / 100)
                  \<and> vatAmount ?res = binary64 (of_int (i - e) / 100)
                  \<and> toFixed2 (priceIncludingVat ?res) = Digits False i
                  \<and> toFixed2 (priceExcludingVat ?res) = Digits False e
                  \<and> toFixed2 (vatAmount ?res) = Digits (i < e) \<bar>i - e\<bar>"
    if a: "amt \<le> 10 ^ 12"
  proof -
    have amt: "amt \<le> 1000000000000" using a by simp
    obtain i e :: int where ie: "0 \<le> i" "0 \<le> e" "real_of_int i \<le> 100000000000200"
      "real_of_int e \<le> 100000000000200"
      and r: "extractVat (Finite amt) (Finite rate) now =
                Inr \<lparr> mode = Extract, vatRate = Finite rate,
                      priceExcludingVat = binary64 (of_int e / 100),
                      vatAmount = binary64 (of_int (i - e) / 100),
                      priceIncludingVat = binary64 (of_int i / 100),
                      timestamp = now \<rparr>"
      using extractVat_cents [OF assms(1) amt assms(2,3), of now] by blast
    have eq: "?res = \<lparr> mode = Extract, vatRate = Finite rate,
                      priceExcludingVat = binary64 (of_int e / 100),
                      vatAmount = binary64 (of_int (i - e) / 100),
                      priceIncludingVat = binary64 (of_int i / 100),
                      timestamp = now \<rparr>"
    proof -
      from r have "Inr ?res = (Inr \<lparr> mode = Extract, vatRate = Finite rate,
                      priceExcludingVat = binary64 (of_int e / 100),
                      vatAmount = binary64 (of_int (i - e) / 100),
                      priceIncludingVat = binary64 (of_int i / 100),
                      timestamp = now \<rparr> :: error + CalculationResult)"
        unfolding res .
      then show ?thesis by (simp only: sum.inject)
    qed
    have "\<bar>real_of_int e\<bar> \<le> 300000000000000" "\<bar>real_of_int i\<bar> \<le> 300000000000000"
      "\<bar>real_of_int (i - e)\<bar> \<le> 300000000000000"
      using ie by simp_all
    then have "toFixed2 (binary64 (of_int e / 100)) = Digits False e"
      "toFixed2 (binary64 (of_int (i - e) / 100)) = Digits (i < e) \<bar>i - e\<bar>"
      "toFixed2 (binary64 (of_int i / 100)) = Digits False i"
      using ie toFixed2_cents [of e] toFixed2_cents [of "i - e"] toFixed2_cents [of i]
      by simp_all
    then show ?thesis unfolding eq using ie by auto
  qed
  show ?thesis
    apply (rule exI [of _ d])
    unfolding res q
    using d(1,2,3) dn nn le small q by simp
qed

theorem extractVat_divisor_witness:
  "(0::real) \<le> 12900 \<and> (0::real) \<le> 75 / 10 \<and> (75 / 10 :: real) \<le> 100
   \<and> (12900 :: real) \<le> 10 ^ 12
   \<and> js_add (Finite 1) (js_div (Finite (75 / 10)) (Finite 100)) = binary64 (1075 / 1000)
   \<and> js_div (Finite 12900) (binary64 (1075 / 1000)) = Finite 12000
   \<and> (\<exists>res. extractVat (Finite 12900) (Finite (75 / 10)) 0 = Inr res
         \<and> priceExcludingVat res = Finite 12000 \<and> vatAmount res = Finite 900
         \<and> priceIncludingVat res = Finite 12900)"
proof -
  have h: "(0::real) \<le> 12900" "(0::real) \<le> 75 / 10" "(75 / 10 :: real) \<le> 100"
    by simp_all
  show ?thesis
    using extractVat_divisor [OF h, of 0]
    by (simp add: vat_eval)
qed

text \<open>
  C5. \<open>addVat\<close> raises exactly when the price is negative or the rate lies outside
  \<open>[0, 100]\<close>, and \<open>extractVat\<close> exactly when the total is negative or the rate lies outside
  \<open>[0, 100]\<close>, the comparisons being those of JavaScript on any number (first four
  conjuncts) and the usual ones on finite numbers (next four); otherwise each returns a
  result. What is raised is always an \<^verbatim>\<open>Error\<close> carrying one of the argument-range
  messages.
\<close>

theorem invalid_argument_iff:
  "((\<exists>e. addVat price rate now = Inl e)
      \<longleftrightarrow> (js_lt price (Finite 0) \<or> js_lt rate (Finite 0) \<or> js_gt rate (Finite 100)))
   \<and> ((\<exists>e. extractVat price rate now = Inl e)
      \<longleftrightarrow> (js_lt price (Finite 0) \<or> js_lt rate (Finite 0) \<or> js_gt rate (Finite 100)))
   \<and> ((\<exists>r. addVat price rate now = Inr r)
      \<longleftrightarrow> \<not> (js_lt price (Finite 0) \<or> js_lt rate (Finite 0) \<or> js_gt rate (Finite 100)))
   \<and> ((\<exists>r. extractVat price rate now = Inr r)
      \<longleftrightarrow> \<not> (js_lt price (Finite 0) \<or> js_lt rate (Finite 0) \<or> js_gt rate (Finite 100)))
   \<and> ((\<exists>e. addVat (Finite a) (Finite b) now = Inl e) \<longleftrightarrow> (a < 0 \<or> b < 0 \<or> b > 100))
   \<and> ((\<exists>e. extractVat (Finite a) (Finite b) now = Inl e) \<longleftrightarrow> (a < 0 \<or> b < 0 \<or> b > 100))
   \<and> ((\<exists>r. addVat (Finite a) (Finite b) now = Inr r) \<longleftrightarrow> (0 \<le> a \<and> 0 \<le> b \<and> b \<le> 100))
   \<and> ((\<exists>r. extractVat (Finite a) (Finite b) now = Inr r) \<longleftrightarrow> (0 \<le> a \<and> 0 \<le> b \<and> b \<le> 100))
   \<and> (\<forall>e. addVat price rate now = Inl e \<longrightarrow>
          e = Error ''Price cannot be negative''
          \<or> e = Error ''VAT rate must be between 0 and 100'')
   \<and> (\<forall>e. extractVat price rate now = Inl e \<longrightarrow>
          e = Error ''Total price cannot be negative''
          \<or> e = Error ''VAT rate must be between 0 and 100'')"
proof -
  have 1: "(\<exists>e. addVat p r now = Inl e)
      \<longleftrightarrow> (js_lt p (Finite 0) \<or> js_lt r (Finite 0) \<or> js_gt r (Finite 100))" for p r
    by (simp add: addVat_def Let_def)
  have 2: "(\<exists>e. extractVat p r now = Inl e)
      \<longleftrightarrow> (js_lt p (Finite 0) \<or> js_lt r (Finite 0) \<or> js_gt r (Finite 100))" for p r
    by (simp add: extractVat_def Let_def)
  have 3: "(\<exists>x. addVat p r now = Inr x)
      \<longleftrightarrow> \<not> (js_lt p (Finite 0) \<or> js_lt r (Finite 0) \<or> js_gt r (Finite 100))" for p r
    by (simp add: addVat_def Let_def)
  have 4: "(\<exists>x. extractVat p r now = Inr x)
      \<longleftrightarrow> \<not> (js_lt p (Finite 0) \<or> js_lt r (Finite 0) \<or> js_gt r (Finite 100))" for p r
    by (simp add: extractVat_def Let_def)
  have f: "(js_lt (Finite a) (Finite 0) \<or> js_lt (Finite b) (Finite 0)
             \<or> js_gt (Finite b) (Finite 100)) \<longleftrightarrow> (a < 0 \<or> b < 0 \<or> b > 100)"
    by (simp add: js_lt_def js_gt_def)
  have g: "(\<not> (a < 0 \<or> b < 0 \<or> b > 100)) \<longleftrightarrow> (0 \<le> a \<and> 0 \<le> b \<and> b \<le> 100)"
    by auto
  have 5: "\<forall>e. addVat price rate now = Inl e \<longrightarrow>
          e = Error ''Price cannot be negative''
          \<or> e = Error ''VAT rate must be between 0 and 100''"
    by (auto simp add: addVat_def Let_def split: if_splits)
  have 6: "\<forall>e. extractVat price rate now = Inl e \<longrightarrow>
          e = Error ''Total price cannot be negative''
          \<or> e = Error ''VAT rate must be between 0 and 100''"
    by (auto simp add: extractVat_def Let_def split: if_splits)
  show ?thesis
    unfolding 1 2 3 4 f g using 5 6 by simp
qed

theorem invalid_argument_iff_witness:
  "addVat (Finite (- 1)) (Finite (75 / 10)) 0 = Inl (Error ''Price cannot be negative'')
   \<and> extractVat (Finite (- 1)) (Finite (75 / 10)) 0
       = Inl (Error ''Total price cannot be negative'')
   \<and> addVat (Finite 100) (Finite (- 5)) 0 = Inl (Error ''VAT rate must be between 0 and 100'')
   \<and> addVat (Finite 100) (Finite 101) 0 = Inl (Error ''VAT rate must be between 0 and 100'')
   \<and> addVat NegInfinity (Finite 5) 0 = Inl (Error ''Price cannot be negative'')
   \<and> extractVat (Finite 5) PosInfinity 0 = Inl (Error ''VAT rate must be between 0 and 100'')
   \<and> (\<exists>r. addVat (Finite 100) (Finite (75 / 10)) 0 = Inr r)
   \<and> (\<exists>r. extractVat (Finite 100) (Finite 100) 0 = Inr r)
   \<and> (\<exists>r. addVat NaN NaN 0 = Inr r)"
  using invalid_argument_iff [of "Finite (- 1)" "Finite (75 / 10)" 0 "- 1" "75 / 10"]
    invalid_argument_iff [of "Finite 100" "Finite (- 5)" 0 100 "- 5"]
    invalid_argument_iff [of "Finite 100" "Finite 101" 0 100 101]
    invalid_argument_iff [of "Finite 100" "Finite (75 / 10)" 0 100 "75 / 10"]
    invalid_argument_iff [of "Finite 100" "Finite 100" 0 100 100]
    invalid_argument_iff [of NaN NaN 0 0 0]
  by (simp add: addVat_def extractVat_def js_lt_def js_gt_def)

section \<open>The history store\<close>

lemma addCalculation_take:
  "length (history st) \<le> maxHistorySize st \<Longrightarrow>
     history (addCalculation c st) = take (maxHistorySize st) (c # history st)"
  by (cases "length (history st) = maxHistorySize st")
     (simp_all add: addCalculation_def Let_def butlast_conv_take)

lemma addCalculation_maxHistorySize:
  "maxHistorySize (addCalculation c st) = maxHistorySize st"
  by (simp add: addCalculation_def Let_def)

lemma fold_addCalculation_take:
  "length (history st) \<le> maxHistorySize st \<Longrightarrow>
     history (fold addCalculation cs st) = take (maxHistorySize st) (rev cs @ history st)"
proof (induction cs arbitrary: st)
  case Nil
  then show ?case by simp
next
  case (Cons c cs)
  let ?st = "addCalculation c st"
  have h: "history ?st = take (maxHistorySize st) (c # history st)"
    using Cons.prems by (rule addCalculation_take)
  then have len: "length (history ?st) \<le> maxHistorySize ?st"
    by (simp add: addCalculation_maxHistorySize)
  have "history (fold addCalculation cs ?st)
          = take (maxHistorySize st) (rev cs @ take (maxHistorySize st) (c # history st))"
    using Cons.IH [OF len] h by (simp add: addCalculation_maxHistorySize)
  also have "\<dots> = take (maxHistorySize st) (rev cs @ c # history st)"
    by (simp add: take_append min_def)
  finally show ?case by simp
qed

text \<open>
  C6. With capacity 10 and a history of at most 10 entries, \<open>addCalculation\<close> puts the new
  entry at the front and, when the history was full, drops exactly its last (oldest)
  entry. After any sequence of appends the history is the first 10 entries of the
  appended ones, newest first, followed by the old ones: never longer than 10, and the
  entries lost are the oldest.
\<close>

theorem addCalculation_bounded:
  assumes "maxHistorySize st = 10" and "length (history st) \<le> 10"
  shows "history (addCalculation c st)
           = (if length (history st) = 10 then c # butlast (history st) else c # history st)
       \<and> history (addCalculation c st) = take 10 (c # history st)
       \<and> length (history (addCalculation c st)) \<le> 10
       \<and> maxHistorySize (addCalculation c st) = 10
       \<and> history (fold addCalculation cs st) = take 10 (rev cs @ history st)
       \<and> length (history (fold addCalculation cs st)) \<le> 10"
proof -
  have 1: "history (addCalculation c st)
           = (if length (history st) = 10 then c # butlast (history st) else c # history st)"
    using assms by (cases "history st") (simp_all add: addCalculation_def Let_def)
  have 2: "history (addCalculation c st) = take 10 (c # history st)"
    using addCalculation_take [of st c] assms by simp
  have 3: "history (fold addCalculation cs st) = take 10 (rev cs @ history st)"
    using fold_addCalculation_take [of st cs] assms by simp
  have 4: "length (take 10 (c # history st)) \<le> 10"
    "length (take 10 (rev cs @ history st)) \<le> 10"
    by simp_all
  show ?thesis
    using 1 4 assms(1) unfolding 2 3 by (simp only: addCalculation_maxHistorySize simp_thms)
qed

theorem addCalculation_bounded_witness:
  "map timestamp (history (addCalculation
       \<lparr> mode = Add, vatRate = Finite 0, priceExcludingVat = Finite 1, vatAmount = Finite 0,
         priceIncludingVat = Finite 1, timestamp = 7 \<rparr> initialHistoryState)) = [7]
   \<and> map timestamp (history (fold addCalculation
         (map (\<lambda>t. \<lparr> mode = Add, vatRate = Finite 0, priceExcludingVat = Finite 1,
                       vatAmount = Finite 0, priceIncludingVat = Finite 1, timestamp = t \<rparr>)
              [1, 2, 3, 4, 5, 6, 7, 8, 9, 10, 11, 12])
         initialHistoryState))
       = [12, 11, 10, 9, 8, 7, 6, 5, 4, 3]"
proof -
  have h: "maxHistorySize initialHistoryState = 10" "length (history initialHistoryState) \<le> 10"
    by (simp_all add: initialHistoryState_def)
  show ?thesis
    using addCalculation_bounded [OF h,
        of "\<lparr> mode = Add, vatRate = Finite 0, priceExcludingVat = Finite 1,
              vatAmount = Finite 0, priceIncludingVat = Finite 1, timestamp = 7 \<rparr>"
           "map (\<lambda>t. \<lparr> mode = Add, vatRate = Finite 0, priceExcludingVat = Finite 1,
                       vatAmount = Finite 0, priceIncludingVat = Finite 1, timestamp = t \<rparr>)
              [1, 2, 3, 4, 5, 6, 7, 8, 9, 10, 11, 12]"]
    by (simp add: initialHistoryState_def)
qed

section \<open>The auto-save state machine\<close>

lemmas hook_defs = step_def rerender_def handleSetAmount_def handleSetVatRate_def
  handleSetMode_def handleAmountBlur_def handleAmountKeyDown_def resetCalculator_def
  autoSaveCallback_def scheduleAutoSave_def clearDebounceTimer_def saveToHistory_def
  performCalculation_def saveCalculation_def createCalculationKey_def toFixed2_def
  parseFloat_def parseUnsigned_def inputPattern_def isDigit_def digitValue_def
  digitsValue_def initialHook_def initialHistoryState_def DEFAULT_VAT_RATE_def
  addCalculation_def vat_eval

subsection \<open>What every path does\<close>

lemma saveCalculation_duplicate:
  "lastSavedKeyRef h = Some key \<Longrightarrow> saveCalculation r key h = h"
  by (simp add: saveCalculation_def)

lemma saveCalculation_new:
  "lastSavedKeyRef h \<noteq> Some key \<Longrightarrow>
     store (saveCalculation r key h) = addCalculation r (store h)
     \<and> lastSavedKeyRef (saveCalculation r key h) = Some key"
  by (simp add: saveCalculation_def)

lemma saveToHistory_not_eligible:
  "result h = None \<or> isNaN (parseFloat (amount h)) \<or> js_le (parseFloat (amount h)) (Finite 0)
     \<Longrightarrow> saveToHistory h = h"
  by (auto simp add: saveToHistory_def split: option.splits)

lemma performCalculation_invalid:
  assumes "amount h = '''' \<or> vatRateInput h = ''''
           \<or> isNaN (parseFloat (amount h)) \<or> isNaN (parseFloat (vatRateInput h))
           \<or> js_lt (parseFloat (amount h)) (Finite 0)
           \<or> js_lt (parseFloat (vatRateInput h)) (Finite 0)
           \<or> js_gt (parseFloat (vatRateInput h)) (Finite 100)"
  shows "performCalculation now h = h \<lparr> result := None \<rparr>"
  using assms by (auto simp add: performCalculation_def Let_def)

lemma timer_cancelled_by_blur: "\<not> debounceTimerRef (step now AmountBlur h)"
  by (simp add: step_def rerender_def handleAmountBlur_def clearDebounceTimer_def
      saveToHistory_def saveCalculation_def Let_def split: option.splits)

lemma timer_cancelled_by_enter: "\<not> debounceTimerRef (step now (AmountKeyDown ''Enter'') h)"
  by (simp add: step_def rerender_def handleAmountKeyDown_def handleAmountBlur_def
      clearDebounceTimer_def saveToHistory_def saveCalculation_def Let_def split: option.splits)

lemma performCalculation_timer:
  "debounceTimerRef (performCalculation now h) = debounceTimerRef h"
  by (simp add: performCalculation_def Let_def split: sum.splits)

lemma saveToHistory_timer: "debounceTimerRef (saveToHistory h) = debounceTimerRef h"
  by (simp add: saveToHistory_def saveCalculation_def Let_def split: option.splits)

lemma timer_cancelled_by_reset: "\<not> debounceTimerRef (step now Reset h)"
  by (simp add: step_def rerender_def resetCalculator_def clearDebounceTimer_def
      performCalculation_timer saveToHistory_timer Let_def split: option.splits)

lemma timer_cancelled_by_clearing:
  "amount h \<noteq> '''' \<Longrightarrow> \<not> debounceTimerRef (step now (SetAmount '''') h)"
  by (simp add: step_def rerender_def handleSetAmount_def clearDebounceTimer_def
      performCalculation_timer Let_def saveCalculation_def split: option.splits prod.splits)

lemma mode_change_commits_under_old_mode:
  "newMode \<noteq> modeInput h \<Longrightarrow> amount h \<noteq> '''' \<Longrightarrow>
     store (handleSetMode newMode h) = store (saveToHistory h)
     \<and> lastSavedKeyRef (handleSetMode newMode h) = lastSavedKeyRef (saveToHistory h)"
  by (simp add: handleSetMode_def Let_def)

subsection \<open>Three traces\<close>

text \<open>
  C3. Blur, Enter, clearing the amount and reset cancel the pending timer (the four lemmas
  above); a mode change does not. The amount 5 is typed, which schedules the timer, and
  the mode is switched to Extract: the Add result is committed under the old mode, the
  timer is still pending, and when it fires it commits the Extract result as well.
\<close>

theorem mode_change_keeps_timer:
  "debounceTimerRef (run [(1, SetAmount ''5''), (2, SetMode Extract)] initialHook)
   \<and> map mode (history (store (run [(1, SetAmount ''5''), (2, SetMode Extract)] initialHook)))
       = [Add]
   \<and> map mode (history (store
        (run [(1, SetAmount ''5''), (2, SetMode Extract), (3, TimerFires)] initialHook)))
       = [Extract, Add]"
  by (simp add: hook_defs)

text \<open>
  C2. \<open>performCalculation\<close> leaves \<open>latestResultRef\<close> as it is when the inputs fail the
  validation, so the timer callback can pair an old result with a newer amount. The amount
  0 is typed (its result has all fields 0 and is not eligible), the rate is cleared, and
  the amount becomes 07: when the timer fires, the amount parses to 7, and the result of
  the amount 0 is committed.
\<close>

theorem timer_commits_zero_amount_result:
  "parseFloat ''0'' = Finite 0
   \<and> parseFloat ''07'' = Finite 7
   \<and> result (run [(1, SetAmount ''0'')] initialHook)
       = Some \<lparr> mode = Add, vatRate = Finite (75 / 10), priceExcludingVat = Finite 0,
                vatAmount = Finite 0, priceIncludingVat = Finite 0, timestamp = 1 \<rparr>
   \<and> history (store (run [(1, SetAmount ''0''), (2, SetVatRate ''''), (3, SetAmount ''07'')]
                        initialHook)) = []
   \<and> history (store (run [(1, SetAmount ''0''), (2, SetVatRate ''''), (3, SetAmount ''07''),
                          (4, TimerFires)] initialHook))
       = [\<lparr> mode = Add, vatRate = Finite (75 / 10), priceExcludingVat = Finite 0,
             vatAmount = Finite 0, priceIncludingVat = Finite 0, timestamp = 1 \<rparr>]"
  by (simp add: hook_defs)

text \<open>
  C7. With an input that fails the validation, \<open>performCalculation\<close> computes nothing and
  the displayed result is absent (lemma \<open>performCalculation_invalid\<close>), and
  \<open>saveToHistory\<close> commits nothing (lemma \<open>saveToHistory_not_eligible\<close>); the timer
  callback still can. The amount 5 is typed and the rate is cleared before the timer
  fires: the rate field is empty and no result is displayed, and the timer commits the
  result of 5 at 7.5 percent.
\<close>

theorem timer_commits_while_rate_empty:
  "vatRateInput (run [(1, SetAmount ''5''), (2, SetVatRate '''')] initialHook) = ''''
   \<and> result (run [(1, SetAmount ''5''), (2, SetVatRate '''')] initialHook) = None
   \<and> history (store (run [(1, SetAmount ''5''), (2, SetVatRate '''')] initialHook)) = []
   \<and> vatRateInput (run [(1, SetAmount ''5''), (2, SetVatRate ''''), (3, TimerFires)] initialHook)
       = ''''
   \<and> history (store (run [(1, SetAmount ''5''), (2, SetVatRate ''''), (3, TimerFires)]
                        initialHook))
       = [\<lparr> mode = Add, vatRate = Finite (75 / 10), priceExcludingVat = Finite 5,
             vatAmount = binary64 (38 / 100), priceIncludingVat = binary64 (538 / 100),
             timestamp = 1 \<rparr>]"
  by (simp add: hook_defs)

end
